theory Spec2Isabelle
  imports Main "HOL-Library.AList"
begin

section \<open>JavaScript strings\<close>

text \<open>
  A JavaScript string is a \<^typ>\<open>string\<close>: one \<^typ>\<open>char\<close> stands for one code unit in
  the range 0..255. The functions below are the built-in string and array methods that
  \<^verbatim>\<open>git-repo.ts\<close> calls, with the behaviour ECMAScript gives them on that range.
\<close>

definition LF :: char where
  "LF = CHR 0x0A"

definition CR :: char where
  "CR = CHR 0x0D"

definition DQUOTE :: char where
  "DQUOTE = CHR 0x22"

definition BACKSLASH :: char where
  "BACKSLASH = CHR 0x5C"

text \<open>White space and line terminators of ECMAScript below 256: TAB, LF, VT, FF, CR, SP, NBSP.\<close>

definition isWhiteSpace :: "char \<Rightarrow> bool" where
  "isWhiteSpace c \<longleftrightarrow>
     c \<in> set [CHR 0x09, CHR 0x0A, CHR 0x0B, CHR 0x0C, CHR 0x0D, CHR 0x20, CHR 0xA0]"

text \<open>\<^verbatim>\<open>String.prototype.trim\<close>\<close>

definition trim :: "string \<Rightarrow> string" where
  "trim s = rev (dropWhile isWhiteSpace (rev (dropWhile isWhiteSpace s)))"

text \<open>\<^verbatim>\<open>String.prototype.startsWith\<close>\<close>

definition startsWith :: "string \<Rightarrow> string \<Rightarrow> bool" where
  "startsWith s p \<longleftrightarrow> take (length p) s = p"

text \<open>\<^verbatim>\<open>Array.prototype.join\<close> on an array of strings\<close>

fun join :: "string \<Rightarrow> string list \<Rightarrow> string" where
  "join sep [] = []"
| "join sep [x] = x"
| "join sep (x # y # ys) = x @ sep @ join sep (y # ys)"

text \<open>Puts a code unit in front of the first piece of a split that is under construction.\<close>

fun consHead :: "char \<Rightarrow> string list \<Rightarrow> string list" where
  "consHead c [] = [[c]]"
| "consHead c (l # ls) = (c # l) # ls"

text \<open>\<^verbatim>\<open>s.split('\n')\<close>: every line feed ends a piece; the empty string gives one empty piece.\<close>

fun splitLF :: "string \<Rightarrow> string list" where
  "splitLF [] = [[]]"
| "splitLF (c # cs) = (if c = LF then [] # splitLF cs else consHead c (splitLF cs))"

text \<open>
  \<^verbatim>\<open>s.split(/\r?\n/)\<close>: the leftmost match wins, so a carriage return is part of the
  separator exactly when a line feed follows it directly.
\<close>

fun splitCRLF :: "string \<Rightarrow> string list" where
  "splitCRLF [] = [[]]"
| "splitCRLF [c] = (if c = LF then [[], []] else [[c]])"
| "splitCRLF (c # d # cs) =
     (if c = CR \<and> d = LF then [] # splitCRLF cs
      else if c = LF then [] # splitCRLF (d # cs)
      else consHead c (splitCRLF (d # cs)))"

section \<open>Command options\<close>

text \<open>
  \<^verbatim>\<open>ICommnandOptions\<close>: an object whose values are
  \<^verbatim>\<open>boolean | string | string[] | undefined\<close>. The object is the list of its entries in
  the order \<^verbatim>\<open>Object.entries\<close> enumerates them; a key occurs once. Setting a key
  (\<^verbatim>\<open>{...opts, key: v}\<close>) is \<^const>\<open>AList.update\<close>: an existing key keeps its place, a new
  key goes last (the keys set by this module, \<^verbatim>\<open>message\<close> and \<^verbatim>\<open>--\<close>, are no array
  indices, which JavaScript would enumerate first).
\<close>

datatype optval = VUndefined | VBool bool | VStr string | VList "string list"

type_synonym ICommnandOptions = "(string \<times> optval) list"

text \<open>
  The values left once \<^verbatim>\<open>false\<close> and \<^verbatim>\<open>undefined\<close> are excluded,
  \<^verbatim>\<open>true | string | string[]\<close>: the parameter type of \<^verbatim>\<open>normalizeValue\<close>.
\<close>

datatype retained = RTrue | RStr string | RList "string list"

fun normalizeValue :: "retained \<Rightarrow> string list" where
  "normalizeValue RTrue = ['''']"
| "normalizeValue (RList val) = val"
| "normalizeValue (RStr val) = [val]"

text \<open>The type guard of the filter: \<^verbatim>\<open>(entry[1] !== undefined) && (entry[1] !== false)\<close>.\<close>

fun retainedValue :: "optval \<Rightarrow> retained option" where
  "retainedValue VUndefined = None"
| "retainedValue (VBool b) = (if b then Some RTrue else None)"
| "retainedValue (VStr s) = Some (RStr s)"
| "retainedValue (VList vs) = Some (RList vs)"

text \<open>JavaScript truthiness, as \<^verbatim>\<open>&&\<close> and \<^verbatim>\<open>if\<close> read a value.\<close>

fun truthy :: "optval \<Rightarrow> bool" where
  "truthy VUndefined = False"
| "truthy (VBool b) = b"
| "truthy (VStr s) = (s \<noteq> [])"
| "truthy (VList vs) = True"

text \<open>\<^verbatim>\<open>(key.length === 1) ? `-${key}` : `--${key}`\<close>\<close>

definition flagName :: "string \<Rightarrow> string" where
  "flagName key = (if length key = 1 then ''-'' @ key else ''--'' @ key)"

text \<open>The value of the \<^verbatim>\<open>'--'\<close> key in \<^verbatim>\<open>opts || {}\<close>; a missing key reads \<^verbatim>\<open>undefined\<close>.\<close>

definition cmdArgsOf :: "ICommnandOptions option \<Rightarrow> optval" where
  "cmdArgsOf opts =
     (case map_of (case opts of None \<Rightarrow> [] | Some obj \<Rightarrow> obj) ''--'' of
        None \<Rightarrow> VUndefined
      | Some v \<Rightarrow> v)"

text \<open>The rest of the destructuring: every entry but \<^verbatim>\<open>'--'\<close>, in order.\<close>

definition cmdOptsOf :: "ICommnandOptions option \<Rightarrow> ICommnandOptions" where
  "cmdOptsOf opts = filter (\<lambda>entry. fst entry \<noteq> ''--'') (case opts of None \<Rightarrow> [] | Some obj \<Rightarrow> obj)"

text \<open>\<^verbatim>\<open>cmdArgs && normalizeValue(cmdArgs)\<close>, read by \<^verbatim>\<open>if (normalizedCmdArgs)\<close>: \<^const>\<open>None\<close> is a falsy result.\<close>

definition normalizedCmdArgs :: "ICommnandOptions option \<Rightarrow> string list option" where
  "normalizedCmdArgs opts =
     (if truthy (cmdArgsOf opts) then map_option normalizeValue (retainedValue (cmdArgsOf opts))
      else None)"

definition normalizedCmdOpts :: "ICommnandOptions option \<Rightarrow> (string \<times> string list) list" where
  "normalizedCmdOpts opts =
     List.map_filter
       (\<lambda>entry. map_option (\<lambda>rawValue. (flagName (fst entry), normalizeValue rawValue))
          (retainedValue (snd entry)))
       (cmdOptsOf opts)"

text \<open>One retained option: \<^verbatim>\<open>values.map(value => `${name} ${value}`.trim()).join(' ')\<close>.\<close>

definition renderOpt :: "string \<times> string list \<Rightarrow> string" where
  "renderOpt nv = join '' '' (map (\<lambda>v. trim (fst nv @ '' '' @ v)) (snd nv))"

definition withOptions :: "string \<Rightarrow> ICommnandOptions option \<Rightarrow> string" where
  "withOptions cmd opts =
     (let cmd1 = (if length (normalizedCmdOpts opts) > 0
                  then cmd @ '' '' @ join '' '' (map renderOpt (normalizedCmdOpts opts))
                  else cmd)
      in case normalizedCmdArgs opts of
           Some args \<Rightarrow> cmd1 @ '' -- '' @ join '' '' args
         | None \<Rightarrow> cmd1)"

section \<open>The process, the tool and the logger\<close>

text \<open>\<^verbatim>\<open>sh.ExecOutputReturnValue\<close>; its \<^verbatim>\<open>toString()\<close> is the captured standard output.\<close>

record ExecOutputReturnValue =
  code :: int
  stdout :: string
  stderr :: string

text \<open>\<^verbatim>\<open>NodeJS.ProcessEnv\<close>: the entries of an object whose values are \<^verbatim>\<open>string | undefined\<close>.\<close>

type_synonym ProcessEnv = "(string \<times> string option) list"

text \<open>
  What a call can throw: the error of the destroyed guard, and whatever \<^verbatim>\<open>sh.exec\<close>
  throws. \<open>RegExpNotModelled\<close> is no outcome of the program: it marks the inputs of
  \<^verbatim>\<open>getRemoteBranches\<close> for which the pattern \<^verbatim>\<open>new RegExp(`^${remote}/`)\<close> holds
  pattern syntax (a quantifier, a group, a class, an escape, an anchor, an alternative),
  which this development does not interpret.
\<close>

datatype error = RepositoryAlreadyDestroyed | ExecThrew string | RegExpNotModelled

text \<open>
  The mutable state a call of \<^verbatim>\<open>GitRepo\<close> reads and writes: the \<^verbatim>\<open>destroyed\<close> field
  of the object, the working directory of the process and the directory stack of shelljs,
  \<^verbatim>\<open>process.env\<close>, the lines handed to \<^verbatim>\<open>logger.debug\<close>, and the world outside the
  process (file system, repositories, remotes) that the tool and shelljs act on.
  \<open>execCalls\<close> is a ghost field: it records every call of \<^verbatim>\<open>sh.exec\<close> as the command,
  the \<^verbatim>\<open>env\<close> option and the working directory at the time of the call.
\<close>

record 'w state =
  destroyed :: bool
  cwd :: string
  dirStack :: "string list"
  processEnv :: ProcessEnv
  debugLog :: "string list"
  world :: 'w
  execCalls :: "(string \<times> ProcessEnv option \<times> string) list"

text \<open>
  What the module imports and this development takes as given: the primitives that reach
  outside the process, and the two constants defined in files other than
  \<^verbatim>\<open>git-repo.ts\<close>. \<open>sh_exec\<close> gets the command, the \<^verbatim>\<open>env\<close> option, the working
  directory and the world; it returns the captured result or throws (\<^const>\<open>Inl\<close>).
  \<open>process_chdir\<close> tells whether \<^verbatim>\<open>process.chdir\<close>, which shelljs calls to change the
  working directory, succeeds for a directory in a world: whether the directory is there
  and can be entered.
\<close>

record 'w deps =
  sh_exec :: "string \<Rightarrow> ProcessEnv option \<Rightarrow> string \<Rightarrow> 'w \<Rightarrow> (string + ExecOutputReturnValue) \<times> 'w"
  sh_rm :: "string \<Rightarrow> string \<Rightarrow> 'w \<Rightarrow> 'w"
  sh_to :: "string \<Rightarrow> string \<Rightarrow> 'w \<Rightarrow> 'w"
  sh_chmod :: "string \<Rightarrow> string \<Rightarrow> 'w \<Rightarrow> 'w"
  process_chdir :: "string \<Rightarrow> 'w \<Rightarrow> bool"
  NEWLINE_PLACEHOLDER :: string
  FIX_COMMIT_MESSAGE_NEWLINES_SCRIPT_PATH :: string

text \<open>The read-only fields of a \<^verbatim>\<open>GitRepo\<close>, fixed by the constructor.\<close>

record GitRepo =
  directory :: string
  name :: string
  credentialsPath :: string

text \<open>
  The directory commands of shelljs, in its default configuration: a command that fails
  reports the error and returns, it does not throw. Paths are taken as resolved:
  \<^verbatim>\<open>path.resolve\<close> and the expansion of a tilde or of a glob pattern, which shelljs applies
  to the argument of \<^verbatim>\<open>pushd\<close>, leave them as they are, and \<^verbatim>\<open>process.cwd\<close> reports a
  directory under the name by which \<^verbatim>\<open>process.chdir\<close> entered it (no symbolic links).

  The change of directory that \<^verbatim>\<open>pushd\<close> and \<^verbatim>\<open>popd\<close> share: when \<^verbatim>\<open>process.chdir\<close>
  succeeds, the directory left is stored in \<^verbatim>\<open>process.env.OLDPWD\<close>; when it throws,
  nothing changes and the command ends in an error (\<^const>\<open>None\<close>).
\<close>

definition sh_cd :: "'w deps \<Rightarrow> string \<Rightarrow> 'w state \<Rightarrow> 'w state option" where
  "sh_cd d dir s =
     (if process_chdir d dir (world s)
      then Some (s\<lparr>cwd := dir,
                   processEnv := AList.update ''OLDPWD'' (Some (cwd s)) (processEnv s)\<rparr>)
      else None)"

text \<open>A stack index of shelljs, \<^verbatim>\<open>/^[\-+]\d+$/\<close>, and the number its digits stand for.\<close>

definition isDigit :: "char \<Rightarrow> bool" where
  "isDigit c \<longleftrightarrow> c \<in> set ''0123456789''"

definition isStackIndex :: "string \<Rightarrow> bool" where
  "isStackIndex a =
     (case a of
        [] \<Rightarrow> False
      | c # ds \<Rightarrow> (c = CHR ''+'' \<or> c = CHR ''-'') \<and> ds \<noteq> [] \<and> list_all isDigit ds)"

definition digitsValue :: "string \<Rightarrow> nat" where
  "digitsValue ds = foldl (\<lambda>n c. 10 * n + (of_char c - 48)) 0 ds"

text \<open>
  The list that \<^verbatim>\<open>pushd\<close> makes of \<open>dirs\<close>, the working directory followed by the stack,
  before it changes into the head of that list: the empty argument swaps the first two
  entries, a stack index in range rotates the list (\<^verbatim>\<open>+n\<close> brings entry \<open>n\<close> to the front,
  \<^verbatim>\<open>-n\<close> counts from the end), any other argument is a directory and goes in front.
  \<^const>\<open>None\<close> is the error of an empty stack or of an index out of range.
\<close>

definition pushdDirs :: "string \<Rightarrow> string list \<Rightarrow> string list option" where
  "pushdDirs dir dirs =
     (if dir = [] then
        (case dirs of
           cur # nxt # rest \<Rightarrow> Some (nxt # cur # rest)
         | _ \<Rightarrow> None)
      else if isStackIndex dir then
        (if digitsValue (tl dir) < length dirs
         then (let n = (if hd dir = CHR ''-'' then length dirs - (digitsValue (tl dir) + 1)
                        else digitsValue (tl dir))
               in Some (drop n dirs @ take n dirs))
         else None)
      else Some (dir # dirs))"

text \<open>
  \<^verbatim>\<open>sh.pushd('-q', dir)\<close>: \<^verbatim>\<open>+0\<close> does nothing; otherwise the process changes into the
  head of the new list and the rest becomes the stack. After an error, also that of a
  directory that cannot be entered, the working directory and the stack are as before.
\<close>

definition sh_pushd :: "'w deps \<Rightarrow> string \<Rightarrow> 'w state \<Rightarrow> 'w state" where
  "sh_pushd d dir s =
     (if dir = ''+0'' then s
      else case pushdDirs dir (cwd s # dirStack s) of
             Some (target # rest) \<Rightarrow>
               (case sh_cd d target s of
                  Some s' \<Rightarrow> s'\<lparr>dirStack := rest\<rparr>
                | None \<Rightarrow> s)
           | _ \<Rightarrow> s)"

text \<open>
  \<^verbatim>\<open>sh.popd('-q')\<close>: an error on an empty stack; otherwise the top entry leaves the stack
  and the process changes into it. When that change fails the entry is gone all the same.
\<close>

definition sh_popd :: "'w deps \<Rightarrow> 'w state \<Rightarrow> 'w state" where
  "sh_popd d s =
     (case dirStack s of
        [] \<Rightarrow> s
      | dir # rest \<Rightarrow>
          (case sh_cd d dir (s\<lparr>dirStack := rest\<rparr>) of
             Some s' \<Rightarrow> s'
           | None \<Rightarrow> s\<lparr>dirStack := rest\<rparr>))"

definition logger_debug :: "string \<Rightarrow> 'w state \<Rightarrow> 'w state" where
  "logger_debug msg s = s\<lparr>debugLog := debugLog s @ [msg]\<rparr>"

text \<open>\<^verbatim>\<open>JSON.stringify\<close> of a string or of \<^verbatim>\<open>undefined\<close>, as a template literal prints it.\<close>

definition hexDigit :: "nat \<Rightarrow> char" where
  "hexDigit n = ''0123456789abcdef'' ! (n mod 16)"

definition jsonEscape :: "char \<Rightarrow> string" where
  "jsonEscape c =
     (if c = DQUOTE then [BACKSLASH, DQUOTE]
      else if c = BACKSLASH then [BACKSLASH, BACKSLASH]
      else if c = CHR 0x08 then [BACKSLASH, CHR ''b'']
      else if c = CHR 0x0C then [BACKSLASH, CHR ''f'']
      else if c = LF then [BACKSLASH, CHR ''n'']
      else if c = CR then [BACKSLASH, CHR ''r'']
      else if c = CHR 0x09 then [BACKSLASH, CHR ''t'']
      else if (of_char c :: nat) < 32
        then BACKSLASH # ''u00'' @ [hexDigit (of_char c div 16), hexDigit (of_char c)]
      else [c])"

definition JSON_stringify :: "string option \<Rightarrow> string" where
  "JSON_stringify val =
     (case val of
        None \<Rightarrow> ''undefined''
      | Some v \<Rightarrow> DQUOTE # concat (map jsonEscape v) @ [DQUOTE])"

definition envVarStr :: "ProcessEnv option \<Rightarrow> string" where
  "envVarStr envVars =
     (case envVars of
        None \<Rightarrow> []
      | Some ev \<Rightarrow>
          '' ('' @ join '', '' (map (\<lambda>entry. fst entry @ ''='' @ JSON_stringify (snd entry)) ev) @ '')'')"

text \<open>\<^verbatim>\<open>{...a, ...b}\<close>: the entries of \<open>b\<close> set one after the other on a copy of \<open>a\<close>.\<close>

definition spread :: "('k \<times> 'v) list \<Rightarrow> ('k \<times> 'v) list \<Rightarrow> ('k \<times> 'v) list" where
  "spread a b = foldl (\<lambda>acc entry. AList.update (fst entry) (snd entry) acc) a b"

text \<open>\<^verbatim>\<open>opts || {}\<close> and \<^verbatim>\<open>{...opts}\<close> of an optional object.\<close>

definition orEmpty :: "ICommnandOptions option \<Rightarrow> ICommnandOptions" where
  "orEmpty opts = (case opts of None \<Rightarrow> [] | Some obj \<Rightarrow> obj)"

section \<open>Calls that throw and change the state\<close>

definition ret :: "'a \<Rightarrow> 's \<Rightarrow> (error + 'a) \<times> 's" where
  "ret a s = (Inr a, s)"

text \<open>Sequencing: a thrown error skips the rest; the state changes made so far stay.\<close>

definition andThen ::
  "('s \<Rightarrow> (error + 'a) \<times> 's) \<Rightarrow> ('a \<Rightarrow> 's \<Rightarrow> (error + 'b) \<times> 's) \<Rightarrow> 's \<Rightarrow> (error + 'b) \<times> 's" where
  "andThen m f s = (case m s of (Inl e, s') \<Rightarrow> (Inl e, s') | (Inr a, s') \<Rightarrow> f a s')"

section \<open>\<^verbatim>\<open>execInRepo\<close>\<close>

text \<open>
  The part of the \<^verbatim>\<open>try\<close> block after \<^verbatim>\<open>sh.pushd\<close>: compose the command, log it, run
  it, log the non-blank lines of its output.
\<close>

definition execBody ::
  "'w deps \<Rightarrow> string \<Rightarrow> ICommnandOptions option \<Rightarrow> ProcessEnv option \<Rightarrow> 'w state \<Rightarrow>
     (error + ExecOutputReturnValue) \<times> 'w state" where
  "execBody d partialCmd cmdOpts envVars s =
     (let cmd = withOptions (trim partialCmd) cmdOpts;
          env = map_option (spread (processEnv s)) envVars;
          s1 = logger_debug (''GIT: '' @ cmd @ envVarStr envVars) s;
          out = sh_exec d cmd env (cwd s1) (world s1);
          s2 = s1\<lparr>world := snd out, execCalls := execCalls s1 @ [(cmd, env, cwd s1)]\<rparr>
      in case fst out of
           Inl e \<Rightarrow> (Inl (ExecThrew e), s2)
         | Inr result \<Rightarrow>
             (Inr result,
              foldl (\<lambda>acc line. logger_debug (''GIT: '' @ line) acc) s2
                (filter (\<lambda>line. trim line \<noteq> []) (splitLF (stdout result)))))"

text \<open>
  The guard, then \<^verbatim>\<open>try { sh.pushd ...; body } finally { sh.popd }\<close>: the body runs whether
  or not \<^verbatim>\<open>sh.pushd\<close> changed the directory, and \<^verbatim>\<open>sh.popd\<close> runs on every way out of it.
\<close>

definition execInRepo ::
  "'w deps \<Rightarrow> GitRepo \<Rightarrow> string \<Rightarrow> ICommnandOptions option \<Rightarrow> ProcessEnv option \<Rightarrow> 'w state \<Rightarrow>
     (error + ExecOutputReturnValue) \<times> 'w state" where
  "execInRepo d r partialCmd cmdOpts envVars s =
     (if destroyed s then (Inl RepositoryAlreadyDestroyed, s)
      else
        (let res = execBody d partialCmd cmdOpts envVars (sh_pushd d (directory r) s)
         in (fst res, sh_popd d (snd res))))"

section \<open>The operations of \<^verbatim>\<open>GitRepo\<close>\<close>

text \<open>
  An argument of \<^verbatim>\<open>fetch\<close> or \<^verbatim>\<open>push\<close> whose type is
  \<^verbatim>\<open>string | ICommnandOptions | undefined\<close>, told apart by \<^verbatim>\<open>typeof arg !== 'string'\<close>.
\<close>

datatype arg = AString string | AOptions ICommnandOptions | AUndefined

text \<open>The value \<^verbatim>\<open>opts = arg\<close> stores on the branch where \<open>arg\<close> is no string.\<close>

fun asOptions :: "arg \<Rightarrow> ICommnandOptions option" where
  "asOptions (AOptions obj) = Some obj"
| "asOptions AUndefined = None"
| "asOptions (AString v) = None"

definition currentBranch :: "'w deps \<Rightarrow> GitRepo \<Rightarrow> 'w state \<Rightarrow> (error + string) \<times> 'w state" where
  "currentBranch d r =
     andThen (execInRepo d r ''git rev-parse --abbrev-ref HEAD'' None None)
       (\<lambda>result. ret (trim (stdout result)))"

definition addRemote ::
  "'w deps \<Rightarrow> GitRepo \<Rightarrow> string \<Rightarrow> string \<Rightarrow> 'w state \<Rightarrow> (error + unit) \<times> 'w state" where
  "addRemote d r nm url =
     andThen (execInRepo d r (''git remote remove '' @ nm @ '' || true'') None None)
       (\<lambda>_. andThen (execInRepo d r (''git remote add '' @ nm @ '' '' @ url) None None)
          (\<lambda>_. ret ()))"

definition checkout ::
  "'w deps \<Rightarrow> GitRepo \<Rightarrow> string \<Rightarrow> ICommnandOptions option \<Rightarrow> 'w state \<Rightarrow>
     (error + unit) \<times> 'w state" where
  "checkout d r ref opts =
     andThen (execInRepo d r (''git checkout '' @ ref) opts None) (\<lambda>_. ret ())"

text \<open>\<^verbatim>\<open>`"${msg.trim().split(/\r?\n/).join(NEWLINE_PLACEHOLDER)}"`\<close>\<close>

definition tempMsgArg :: "'w deps \<Rightarrow> string \<Rightarrow> string" where
  "tempMsgArg d msg = [DQUOTE] @ join (NEWLINE_PLACEHOLDER d) (splitCRLF (trim msg)) @ [DQUOTE]"

definition commit ::
  "'w deps \<Rightarrow> GitRepo \<Rightarrow> string \<Rightarrow> ICommnandOptions option \<Rightarrow> 'w state \<Rightarrow>
     (error + unit) \<times> 'w state" where
  "commit d r msg opts =
     andThen
       (execInRepo d r ''git commit''
          (Some (AList.update ''message'' (VStr (tempMsgArg d msg)) (orEmpty opts))) None)
       (\<lambda>_. andThen
          (execInRepo d r
             (''git filter-branch --msg-filter '' @ [DQUOTE] @ ''node '' @
                FIX_COMMIT_MESSAGE_NEWLINES_SCRIPT_PATH d @ [DQUOTE] @ '' @~1..@'')
             None (Some [(''FILTER_BRANCH_SQUELCH_WARNING'', Some ''1'')]))
          (\<lambda>_. ret ()))"

definition config ::
  "'w deps \<Rightarrow> GitRepo \<Rightarrow> string \<Rightarrow> string \<Rightarrow> 'w state \<Rightarrow> (error + unit) \<times> 'w state" where
  "config d r key val =
     andThen (execInRepo d r (''git config '' @ key @ '' '' @ val) None None) (\<lambda>_. ret ())"

definition destroy :: "'w deps \<Rightarrow> GitRepo \<Rightarrow> 'w state \<Rightarrow> (error + unit) \<times> 'w state" where
  "destroy d r s =
     (if \<not> destroyed s
      then (Inr (), s\<lparr>world := sh_rm d ''-rf'' (directory r) (world s), destroyed := True\<rparr>)
      else (Inr (), s))"

definition fetch ::
  "'w deps \<Rightarrow> GitRepo \<Rightarrow> string \<Rightarrow> arg \<Rightarrow> ICommnandOptions option \<Rightarrow> 'w state \<Rightarrow>
     (error + unit) \<times> 'w state" where
  "fetch d r remote branch opts =
     (let resolved = (case branch of
                        AString b \<Rightarrow> (opts, b)
                      | _ \<Rightarrow> (asOptions branch, []))
      in andThen
           (execInRepo d r (''git fetch '' @ remote @ '' '' @ snd resolved) (fst resolved) None)
           (\<lambda>_. ret ()))"

text \<open>
  The argument resolution of \<^verbatim>\<open>push\<close>: the options, the local branch and the remote
  branch that the final command is built from. Reading \<^verbatim>\<open>this.currentBranch\<close> runs the tool.
\<close>

definition pushArgs ::
  "'w deps \<Rightarrow> GitRepo \<Rightarrow> arg \<Rightarrow> arg \<Rightarrow> ICommnandOptions option \<Rightarrow> 'w state \<Rightarrow>
     (error + ICommnandOptions option \<times> string \<times> string) \<times> 'w state" where
  "pushArgs d r localBranch remoteBranch opts =
     (case localBranch of
        AString lb \<Rightarrow>
          (case remoteBranch of
             AString rb \<Rightarrow> ret (opts, lb, rb)
           | _ \<Rightarrow> andThen (currentBranch d r) (\<lambda>cb. ret (asOptions remoteBranch, cb, lb)))
      | _ \<Rightarrow> andThen (currentBranch d r) (\<lambda>cb. ret (asOptions localBranch, cb, cb)))"

definition push ::
  "'w deps \<Rightarrow> GitRepo \<Rightarrow> string \<Rightarrow> arg \<Rightarrow> arg \<Rightarrow> ICommnandOptions option \<Rightarrow> 'w state \<Rightarrow>
     (error + unit) \<times> 'w state" where
  "push d r remote localBranch remoteBranch opts =
     andThen (pushArgs d r localBranch remoteBranch opts)
       (\<lambda>a. andThen
          (execInRepo d r (''git push '' @ remote @ '' '' @ fst (snd a) @ '':'' @ snd (snd a))
             (fst a) None)
          (\<lambda>_. ret ()))"

definition deleteRemoteBranch ::
  "'w deps \<Rightarrow> GitRepo \<Rightarrow> string \<Rightarrow> string \<Rightarrow> ICommnandOptions option \<Rightarrow> 'w state \<Rightarrow>
     (error + unit) \<times> 'w state" where
  "deleteRemoteBranch d r remote branch opts = push d r remote (AString []) (AString branch) None"

text \<open>
  The characters with a meaning of their own in a pattern, but for the dot. The pattern
  \<^verbatim>\<open>new RegExp(`^${remote}/`)\<close> of a remote name without them has one position per
  character of \<^verbatim>\<open>`${remote}/`\<close>; on a line that starts with \<^verbatim>\<open>`${remote}/`\<close> (the only
  lines the filter keeps) every position matches the character at its place, a dot
  included, so \<^verbatim>\<open>line.replace\<close> with the empty string drops exactly that prefix.
\<close>

definition isSyntaxCharacter :: "char \<Rightarrow> bool" where
  "isSyntaxCharacter c \<longleftrightarrow> c \<in> set (BACKSLASH # ''^$*+?()[]{}|'')"

definition stripRemote :: "string \<Rightarrow> string \<Rightarrow> string" where
  "stripRemote remote line =
     (if startsWith line (remote @ ''/'') then drop (length (remote @ ''/'')) line else line)"

definition getRemoteBranches ::
  "'w deps \<Rightarrow> GitRepo \<Rightarrow> string \<Rightarrow> 'w state \<Rightarrow> (error + string list) \<times> 'w state" where
  "getRemoteBranches d r remote =
     andThen (fetch d r remote (AOptions [(''depth'', VStr ''1''), (''no-tags'', VBool True)]) None)
       (\<lambda>_. andThen (execInRepo d r ''git branch'' (Some [(''remote'', VBool True)]) None)
          (\<lambda>result s.
             (let kept = filter (\<lambda>line. startsWith line (remote @ ''/''))
                           (map trim (splitLF (stdout result)))
              in if kept = [] then (Inr [], s)
                 else if list_ex isSyntaxCharacter remote then (Inl RegExpNotModelled, s)
                 else (Inr (map (stripRemote remote) kept), s))))"

definition init ::
  "'w deps \<Rightarrow> GitRepo \<Rightarrow> ICommnandOptions option \<Rightarrow> 'w state \<Rightarrow> (error + unit) \<times> 'w state" where
  "init d r opts = andThen (execInRepo d r ''git init'' opts None) (\<lambda>_. ret ())"

text \<open>
  \<^verbatim>\<open>sh.ShellString(...).to(path)\<close> and \<^verbatim>\<open>sh.chmod\<close> act on the world only; \<^verbatim>\<open>if (ghToken)\<close>
  is false for a missing and for an empty token.
\<close>

definition writeCredentials ::
  "'w deps \<Rightarrow> GitRepo \<Rightarrow> string \<Rightarrow> 'w state \<Rightarrow> (error + unit) \<times> 'w state" where
  "writeCredentials d r ghToken s =
     (Inr (),
      s\<lparr>world :=
          sh_chmod d ''go-rwx'' (credentialsPath r)
            (sh_to d (''https://'' @ ghToken @ '':@github.com'') (credentialsPath r) (world s))\<rparr>)"

definition setUserInfo ::
  "'w deps \<Rightarrow> GitRepo \<Rightarrow> string \<Rightarrow> string \<Rightarrow> string option \<Rightarrow> 'w state \<Rightarrow> (error + unit) \<times> 'w state" where
  "setUserInfo d r nm email ghToken =
     andThen (config d r ''user.name'' ([DQUOTE] @ nm @ [DQUOTE]))
       (\<lambda>_. andThen (config d r ''user.email'' ([DQUOTE] @ email @ [DQUOTE]))
          (\<lambda>_. case ghToken of
                 None \<Rightarrow> ret ()
               | Some tok \<Rightarrow>
                   if tok = [] then ret ()
                   else andThen (writeCredentials d r tok)
                     (\<lambda>_. config d r ''credential.helper''
                        ([DQUOTE] @ ''store --file='' @ credentialsPath r @ [DQUOTE]))))"

definition stage ::
  "'w deps \<Rightarrow> GitRepo \<Rightarrow> string list \<Rightarrow> ICommnandOptions option \<Rightarrow> 'w state \<Rightarrow>
     (error + unit) \<times> 'w state" where
  "stage d r files opts =
     andThen (execInRepo d r ''git add'' (Some (AList.update ''--'' (VList files) (orEmpty opts))) None)
       (\<lambda>_. ret ())"

text \<open>
  Every public member of the class as one call, for statements about all of them. The
  value returned is kept where there is one.
\<close>

datatype operation =
    CurrentBranch
  | AddRemote string string
  | Checkout string "ICommnandOptions option"
  | Commit string "ICommnandOptions option"
  | Config string string
  | DeleteRemoteBranch string string "ICommnandOptions option"
  | Destroy
  | Fetch string arg "ICommnandOptions option"
  | GetRemoteBranches string
  | Init "ICommnandOptions option"
  | Push string arg arg "ICommnandOptions option"
  | SetUserInfo string string "string option"
  | Stage "string list" "ICommnandOptions option"

datatype returned = Void | Branch string | Branches "string list"

definition void :: "('s \<Rightarrow> (error + unit) \<times> 's) \<Rightarrow> 's \<Rightarrow> (error + returned) \<times> 's" where
  "void m = andThen m (\<lambda>_. ret Void)"

fun perform :: "'w deps \<Rightarrow> GitRepo \<Rightarrow> operation \<Rightarrow> 'w state \<Rightarrow> (error + returned) \<times> 'w state" where
  "perform d r CurrentBranch = andThen (currentBranch d r) (\<lambda>b. ret (Branch b))"
| "perform d r (AddRemote nm url) = void (addRemote d r nm url)"
| "perform d r (Checkout ref opts) = void (checkout d r ref opts)"
| "perform d r (Commit msg opts) = void (commit d r msg opts)"
| "perform d r (Config key val) = void (config d r key val)"
| "perform d r (DeleteRemoteBranch remote branch opts) =
     void (deleteRemoteBranch d r remote branch opts)"
| "perform d r Destroy = void (destroy d r)"
| "perform d r (Fetch remote branch opts) = void (fetch d r remote branch opts)"
| "perform d r (GetRemoteBranches remote) =
     andThen (getRemoteBranches d r remote) (\<lambda>bs. ret (Branches bs))"
| "perform d r (Init opts) = void (init d r opts)"
| "perform d r (Push remote localBranch remoteBranch opts) =
     void (push d r remote localBranch remoteBranch opts)"
| "perform d r (SetUserInfo nm email ghToken) = void (setUserInfo d r nm email ghToken)"
| "perform d r (Stage files opts) = void (stage d r files opts)"

section \<open>The rewrite of the commit message\<close>

text \<open>
  Every occurrence of a non-empty \<open>pat\<close> replaced by \<open>rep\<close>, leftmost first and none
  overlapping (\<^verbatim>\<open>s.split(pat).join(rep)\<close>); an empty \<open>pat\<close> replaces nothing.
\<close>

fun replaceAll :: "string \<Rightarrow> string \<Rightarrow> string \<Rightarrow> string" where
  "replaceAll pat rep [] = []"
| "replaceAll pat rep (c # cs) =
     (if pat \<noteq> [] \<and> startsWith (c # cs) pat
      then rep @ replaceAll pat rep (drop (length pat - 1) cs)
      else c # replaceAll pat rep cs)"

text \<open>
  Modelled from the spec: the script \<^verbatim>\<open>fix-commit-message-newlines\<close>, which
  \<^verbatim>\<open>git filter-branch --msg-filter\<close> runs on the message of the most recent commit, is not
  among the sources. The spec says it restores real newlines from the placeholder.
\<close>

definition fixCommitMessageNewlines :: "'w deps \<Rightarrow> string \<Rightarrow> string" where
  "fixCommitMessageNewlines d stored = replaceAll (NEWLINE_PLACEHOLDER d) [LF] stored"

section \<open>A host for the examples\<close>

text \<open>
  A tool that answers three commands: it prints the branch \<^verbatim>\<open>main\<close> for the \<^verbatim>\<open>HEAD\<close>
  query, prints three remote branches for the branch listing, fails with exit status 1
  on the checkout of \<^verbatim>\<open>missing\<close>; its start throws for \<^verbatim>\<open>git init\<close>, and every other
  command succeeds silently. The world is the list of commands that ran. The directories
  \<^verbatim>\<open>/home\<close>, \<^verbatim>\<open>/tmp\<close> and \<^verbatim>\<open>/work/repo\<close> are there; \<^verbatim>\<open>/work/repo/build\<close> is there until
  \<^verbatim>\<open>git clean -fdx\<close> has run; no other directory is.
\<close>

definition exampleExec ::
  "string \<Rightarrow> ProcessEnv option \<Rightarrow> string \<Rightarrow> string list \<Rightarrow>
     (string + ExecOutputReturnValue) \<times> string list" where
  "exampleExec cmd env dir w =
     (if cmd = ''git init'' then (Inl ''spawn failed'', w)
      else if cmd = ''git rev-parse --abbrev-ref HEAD''
        then (Inr \<lparr>code = 0, stdout = ''main'' @ [LF], stderr = []\<rparr>, w @ [cmd])
      else if cmd = ''git branch --remote''
        then (Inr \<lparr>code = 0,
                   stdout =
                     ''  origin/main'' @ [LF] @ ''  origin/dev'' @ [LF] @ ''  upstream/main'' @ [LF],
                   stderr = []\<rparr>, w @ [cmd])
      else if cmd = ''git checkout missing''
        then (Inr \<lparr>code = 1, stdout = [], stderr = ''error: pathspec''\<rparr>, w @ [cmd])
      else (Inr \<lparr>code = 0, stdout = [], stderr = []\<rparr>, w @ [cmd]))"

definition exampleDeps :: "(string list) deps" where
  "exampleDeps =
     \<lparr>sh_exec = exampleExec,
      sh_rm = (\<lambda>flags path w. w @ [''rm '' @ flags @ '' '' @ path]),
      sh_to = (\<lambda>content path w. w @ [''write '' @ path]),
      sh_chmod = (\<lambda>mode path w. w @ [''chmod '' @ mode @ '' '' @ path]),
      process_chdir =
        (\<lambda>dir w. dir \<in> set [''/home'', ''/tmp'', ''/work/repo''] \<or>
                  (dir = ''/work/repo/build'' \<and> ''git clean -fdx'' \<notin> set w)),
      NEWLINE_PLACEHOLDER = ''<NL>'',
      FIX_COMMIT_MESSAGE_NEWLINES_SCRIPT_PATH = ''/app/fix-commit-message-newlines.js''\<rparr>"

definition exampleRepo :: GitRepo where
  "exampleRepo =
     \<lparr>directory = ''/work/repo'', name = ''repo'',
      credentialsPath = ''/work/repo/.git/.git-credentials--1''\<rparr>"

definition exampleState :: "(string list) state" where
  "exampleState =
     \<lparr>destroyed = False, cwd = ''/home'', dirStack = [], processEnv = [(''HOME'', Some ''/home'')],
      debugLog = [], world = [], execCalls = []\<rparr>"

text \<open>A session on a directory that is not there.\<close>

definition goneRepo :: GitRepo where
  "goneRepo =
     \<lparr>directory = ''/work/gone'', name = ''gone'',
      credentialsPath = ''/work/gone/.git/.git-credentials--1''\<rparr>"

text \<open>A caller in \<^verbatim>\<open>/home\<close> that has pushed \<^verbatim>\<open>/tmp\<close> on the directory stack itself.\<close>

definition callerState :: "(string list) state" where
  "callerState =
     \<lparr>destroyed = False, cwd = ''/home'', dirStack = [''/tmp''],
      processEnv = [(''HOME'', Some ''/home'')], debugLog = [], world = [], execCalls = []\<rparr>"

text \<open>A caller whose working directory is the build directory inside the repository.\<close>

definition buildState :: "(string list) state" where
  "buildState =
     \<lparr>destroyed = False, cwd = ''/work/repo/build'', dirStack = [],
      processEnv = [(''HOME'', Some ''/home'')], debugLog = [], world = [], execCalls = []\<rparr>"

text \<open>
  The message of the last commit in a world of the example host, read off the commands
  that ran: a commit stores the text between the double quotes of its \<^verbatim>\<open>message\<close>
  option, the rewrite puts a line feed for every \<^verbatim>\<open><NL>\<close>.
\<close>

definition exampleMessage :: "string list \<Rightarrow> string option" where
  "exampleMessage w =
     foldl
       (\<lambda>m cmd.
          if startsWith cmd (''git commit --message '' @ [DQUOTE])
            then Some (butlast (drop (length (''git commit --message '' @ [DQUOTE])) cmd))
          else if startsWith cmd ''git filter-branch --msg-filter ''
            then map_option (replaceAll ''<NL>'' [LF]) m
          else m)
       None w"

text \<open>The commands that ran, oldest first.\<close>

definition commands :: "'w state \<Rightarrow> string list" where
  "commands s = map fst (execCalls s)"

text \<open>The message of the round-trip example of the spec.\<close>

definition line1_line2 :: string where
  "line1_line2 = ''line1'' @ [LF] @ ''line2''"

section \<open>Unfolding the definitions on concrete inputs\<close>

lemmas example_defs = exampleState_def exampleDeps_def exampleRepo_def exampleExec_def

lemmas string_defs = trim_def isWhiteSpace_def startsWith_def LF_def CR_def DQUOTE_def BACKSLASH_def

lemmas options_defs = withOptions_def normalizedCmdOpts_def normalizedCmdArgs_def cmdArgsOf_def
  cmdOptsOf_def renderOpt_def flagName_def orEmpty_def

lemmas dir_defs = sh_pushd_def sh_popd_def sh_cd_def pushdDirs_def isStackIndex_def isDigit_def
  digitsValue_def

lemmas exec_defs = execInRepo_def execBody_def dir_defs logger_debug_def
  envVarStr_def JSON_stringify_def jsonEscape_def spread_def andThen_def ret_def commands_def Let_def

section \<open>Facts about strings\<close>

lemma join_append:
  "xs \<noteq> [] \<Longrightarrow> ys \<noteq> [] \<Longrightarrow> join sep (xs @ ys) = join sep xs @ sep @ join sep ys"
  by (induction sep xs rule: join.induct) (auto simp: neq_Nil_conv)

lemma isWhiteSpace_space: "isWhiteSpace (CHR '' '')"
  by (simp add: isWhiteSpace_def)

lemma dash_not_space: "\<not> isWhiteSpace (CHR ''-'')"
  by (simp add: isWhiteSpace_def)

lemma DQUOTE_not_space: "\<not> isWhiteSpace DQUOTE"
  by (simp add: isWhiteSpace_def DQUOTE_def)

lemma trim_snoc_space: "trim (s @ '' '') = trim s"
proof (cases "\<forall>c\<in>set s. isWhiteSpace c")
  case True
  then have "\<forall>c\<in>set (s @ '' ''). isWhiteSpace c" by (simp add: isWhiteSpace_space)
  then have a: "dropWhile isWhiteSpace (s @ '' '') = []"
    by (simp only: dropWhile_eq_Nil_conv)
  from True have b: "dropWhile isWhiteSpace s = []"
    by (simp only: dropWhile_eq_Nil_conv)
  show ?thesis by (simp only: trim_def a b)
next
  case False
  then obtain c where "c \<in> set s" "\<not> isWhiteSpace c" by blast
  then have "dropWhile isWhiteSpace (s @ '' '') = dropWhile isWhiteSpace s @ '' ''"
    by (rule dropWhile_append1)
  then show ?thesis by (simp add: trim_def isWhiteSpace_space)
qed

lemma trim_id:
  assumes "s = [] \<or> (\<not> isWhiteSpace (hd s) \<and> \<not> isWhiteSpace (last s))"
  shows "trim s = s"
proof -
  from assms have "s = [] \<or> \<not> isWhiteSpace (hd s)" by blast
  then have a: "dropWhile isWhiteSpace s = s"
    by (simp only: dropWhile_eq_self_iff)
  from assms have "rev s = [] \<or> \<not> isWhiteSpace (hd (rev s))"
    by (auto simp: hd_rev)
  then have "dropWhile isWhiteSpace (rev s) = rev s"
    by (simp only: dropWhile_eq_self_iff)
  with a show ?thesis by (simp add: trim_def)
qed

lemma trim_ends:
  "trim s = [] \<or> (\<not> isWhiteSpace (hd (trim s)) \<and> \<not> isWhiteSpace (last (trim s)))"
proof -
  define t where "t = dropWhile isWhiteSpace s"
  define u where "u = dropWhile isWhiteSpace (rev t)"
  have tu: "trim s = rev u" by (simp add: trim_def t_def u_def)
  have t: "t = [] \<or> \<not> isWhiteSpace (hd t)" unfolding t_def by (metis hd_dropWhile)
  have u: "u = [] \<or> \<not> isWhiteSpace (hd u)" unfolding u_def by (metis hd_dropWhile)
  show ?thesis
  proof (cases "u = []")
    case True
    with tu show ?thesis by simp
  next
    case False
    with u have hu: "\<not> isWhiteSpace (hd u)" by simp
    from False have tne: "t \<noteq> []" unfolding u_def by auto
    with t have ht: "\<not> isWhiteSpace (hd t)" by simp
    obtain ws where ws: "rev t = ws @ u" unfolding u_def by (metis takeWhile_dropWhile_id)
    then have "t = rev u @ rev ws" by (metis rev_append rev_rev_ident)
    with False have "hd t = hd (rev u)" by simp
    with ht hu False tu show ?thesis by (simp add: last_rev)
  qed
qed

lemma trim_idem: "trim (trim s) = trim s"
  using trim_ends [of s] by (intro trim_id)

lemma splitCRLF_no_LF: "LF \<notin> set s \<Longrightarrow> splitCRLF s = [s]"
  by (induction s rule: splitCRLF.induct) auto

lemma splitLF_not_Nil: "splitLF s \<noteq> []"
  by (induction s) (auto simp: neq_Nil_conv)

lemma splitCRLF_splitLF: "CR \<notin> set s \<Longrightarrow> splitCRLF s = splitLF s"
  by (induction s rule: splitCRLF.induct) auto

lemma join_consHead: "ls \<noteq> [] \<Longrightarrow> join sep (consHead c ls) = c # join sep ls"
  by (induction sep ls rule: join.induct) auto

lemma join_Nil_Cons: "ls \<noteq> [] \<Longrightarrow> join sep ([] # ls) = sep @ join sep ls"
  by (cases ls) auto

lemma join_splitLF:
  "join sep (splitLF s) = concat (map (\<lambda>c. if c = LF then sep else [c]) s)"
  by (induction s) (simp_all add: join_consHead join_Nil_Cons splitLF_not_Nil)

lemma replaceAll_prefix:
  "pat \<noteq> [] \<Longrightarrow> replaceAll pat rep (pat @ rest) = rep @ replaceAll pat rep rest"
  by (cases pat) (simp_all add: startsWith_def)

lemma replaceAll_other:
  "pat \<noteq> [] \<Longrightarrow> hd pat \<noteq> c \<Longrightarrow> replaceAll pat rep (c # cs) = c # replaceAll pat rep cs"
  by (cases pat) (auto simp: startsWith_def)

lemma replaceAll_restores:
  assumes "pat \<noteq> []" and "hd pat \<notin> set s"
  shows "replaceAll pat [LF] (concat (map (\<lambda>c. if c = LF then pat else [c]) s)) = s"
  using assms(2)
proof (induction s)
  case Nil
  show ?case by simp
next
  case (Cons c cs)
  then show ?case
    using assms(1) by (auto simp: replaceAll_prefix replaceAll_other simp del: replaceAll.simps)
qed

section \<open>Facts about the rendering of options\<close>

lemma cmdOptsOf_Some: "cmdOptsOf (Some opts) = filter (\<lambda>entry. fst entry \<noteq> ''--'') opts"
  by (simp add: cmdOptsOf_def)

lemma normalizedCmdOpts_Nil: "normalizedCmdOpts (Some []) = []"
  by (simp add: normalizedCmdOpts_def cmdOptsOf_def)

lemma normalizedCmdOpts_None: "normalizedCmdOpts None = []"
  by (simp add: normalizedCmdOpts_def cmdOptsOf_def)

lemma normalizedCmdOpts_Cons:
  "normalizedCmdOpts (Some (e # opts)) =
     (if fst e = ''--'' then normalizedCmdOpts (Some opts)
      else case retainedValue (snd e) of
             None \<Rightarrow> normalizedCmdOpts (Some opts)
           | Some v \<Rightarrow> (flagName (fst e), normalizeValue v) # normalizedCmdOpts (Some opts))"
  by (simp add: normalizedCmdOpts_def cmdOptsOf_def split: option.split)

lemma normalizedCmdOpts_append:
  "normalizedCmdOpts (Some (a @ b)) = normalizedCmdOpts (Some a) @ normalizedCmdOpts (Some b)"
  by (induction a) (simp_all add: normalizedCmdOpts_Nil normalizedCmdOpts_Cons split: option.split)

lemma retainedValue_None: "retainedValue v = None \<longleftrightarrow> v = VUndefined \<or> v = VBool False"
  by (cases v) auto

lemma normalizedCmdOpts_filter:
  "normalizedCmdOpts
     (Some (filter (\<lambda>e. fst e = ''--'' \<or> (snd e \<noteq> VUndefined \<and> snd e \<noteq> VBool False)) opts)) =
     normalizedCmdOpts (Some opts)"
proof (induction opts)
  case Nil
  show ?case by simp
next
  case (Cons e opts)
  then show ?case
    using retainedValue_None [of "snd e"]
    by (auto simp: normalizedCmdOpts_Cons split: option.split)
qed

lemma map_of_filter_args:
  "map_of (filter (\<lambda>e. fst e = k \<or> P e) opts) k = map_of opts k"
  by (induction opts) auto

lemma normalizedCmdArgs_filter:
  "normalizedCmdArgs
     (Some (filter (\<lambda>e. fst e = ''--'' \<or> (snd e \<noteq> VUndefined \<and> snd e \<noteq> VBool False)) opts)) =
     normalizedCmdArgs (Some opts)"
  by (simp add: normalizedCmdArgs_def cmdArgsOf_def map_of_filter_args)

lemma withOptions_filter:
  "withOptions cmd
     (Some (filter (\<lambda>e. fst e = ''--'' \<or> (snd e \<noteq> VUndefined \<and> snd e \<noteq> VBool False)) opts)) =
     withOptions cmd (Some opts)"
  by (simp only: withOptions_def normalizedCmdOpts_filter normalizedCmdArgs_filter)

lemma normalizedCmdOpts_flags:
  "map fst (normalizedCmdOpts (Some opts)) =
     map (\<lambda>e. flagName (fst e))
       (filter (\<lambda>e. fst e \<noteq> ''--'' \<and> snd e \<noteq> VUndefined \<and> snd e \<noteq> VBool False) opts)"
proof (induction opts)
  case Nil
  show ?case by (simp add: normalizedCmdOpts_Nil)
next
  case (Cons e opts)
  then show ?case
    using retainedValue_None [of "snd e"]
    by (auto simp: normalizedCmdOpts_Cons split: option.split)
qed

lemma cmdArgsOf_append:
  assumes "''--'' \<notin> fst ` set a"
  shows "cmdArgsOf (Some (a @ b)) = cmdArgsOf (Some b)"
proof -
  from assms have "map_of a ''--'' = None" by (simp add: map_of_eq_None_iff)
  then show ?thesis by (simp add: cmdArgsOf_def map_add_def)
qed

lemma normalizedCmdArgs_no_key:
  assumes "''--'' \<notin> fst ` set a"
  shows "normalizedCmdArgs (Some a) = None"
proof -
  from assms have "map_of a ''--'' = None" by (simp add: map_of_eq_None_iff)
  then show ?thesis by (simp add: normalizedCmdArgs_def cmdArgsOf_def)
qed

lemma withOptions_append:
  assumes "''--'' \<notin> fst ` set a"
  shows "withOptions cmd (Some (a @ b)) = withOptions (withOptions cmd (Some a)) (Some b)"
proof -
  have args: "normalizedCmdArgs (Some (a @ b)) = normalizedCmdArgs (Some b)"
    using assms by (simp add: normalizedCmdArgs_def cmdArgsOf_append)
  have none: "normalizedCmdArgs (Some a) = None"
    using assms by (rule normalizedCmdArgs_no_key)
  show ?thesis
  proof (cases "normalizedCmdOpts (Some a) = [] \<or> normalizedCmdOpts (Some b) = []")
    case True
    then show ?thesis
      by (auto simp: withOptions_def args none normalizedCmdOpts_append)
  next
    case False
    then show ?thesis
      by (simp add: withOptions_def args none normalizedCmdOpts_append join_append)
  qed
qed

lemma withOptions_None: "withOptions cmd None = cmd"
  by (simp add: withOptions_def normalizedCmdOpts_None normalizedCmdArgs_def cmdArgsOf_def)

lemma withOptions_single:
  assumes "k \<noteq> ''--''"
  shows "withOptions cmd (Some [(k, VList vs)]) =
           cmd @ '' '' @ join '' '' (map (\<lambda>v. trim (flagName k @ '' '' @ v)) vs)"
    and "withOptions cmd (Some [(k, VStr v)]) = cmd @ '' '' @ trim (flagName k @ '' '' @ v)"
    and "withOptions cmd (Some [(k, VBool True)]) = cmd @ '' '' @ trim (flagName k)"
    and "withOptions cmd (Some [(k, VBool False)]) = cmd"
    and "withOptions cmd (Some [(k, VUndefined)]) = cmd"
  using assms trim_snoc_space [of "flagName k"]
  by (simp_all add: withOptions_def normalizedCmdOpts_Cons normalizedCmdOpts_Nil
      normalizedCmdArgs_def cmdArgsOf_def renderOpt_def)

lemma trim_flagName:
  assumes "k = [] \<or> \<not> isWhiteSpace (last k)"
  shows "trim (flagName k) = flagName k"
proof -
  have "\<not> isWhiteSpace (CHR ''-'')" by (simp add: isWhiteSpace_def)
  with assms show ?thesis
    by (intro trim_id) (auto simp: flagName_def)
qed

lemma withOptions_args:
  assumes "map_of opts ''--'' = Some (VList args)"
  shows "withOptions cmd (Some opts) =
           withOptions cmd (Some (filter (\<lambda>e. fst e \<noteq> ''--'') opts)) @ '' -- '' @ join '' '' args"
proof -
  have o: "normalizedCmdOpts (Some (filter (\<lambda>e. fst e \<noteq> ''--'') opts)) = normalizedCmdOpts (Some opts)"
    by (simp add: normalizedCmdOpts_def cmdOptsOf_def)
  have n: "normalizedCmdArgs (Some (filter (\<lambda>e. fst e \<noteq> ''--'') opts)) = None"
    by (rule normalizedCmdArgs_no_key) auto
  have a: "normalizedCmdArgs (Some opts) = Some args"
    using assms by (simp add: normalizedCmdArgs_def cmdArgsOf_def)
  show ?thesis by (simp add: withOptions_def o n a)
qed

lemma filter_update:
  "filter (\<lambda>e. fst e \<noteq> k) (AList.update k v al) = filter (\<lambda>e. fst e \<noteq> k) al"
  by (induction al) auto

section \<open>What one execution does\<close>

lemma andThen_Inl: "m s = (Inl e, s') \<Longrightarrow> andThen m f s = (Inl e, s')"
  by (simp add: andThen_def)

lemma andThen_Inr: "m s = (Inr a, s') \<Longrightarrow> andThen m f s = f a s'"
  by (simp add: andThen_def)

lemma andThen_ret_snd: "snd (andThen m (\<lambda>_. ret x) s) = snd (m s)"
  by (cases "m s"; cases "fst (m s)") (auto simp: andThen_def ret_def)

lemma execInRepo_destroyed:
  "destroyed s \<Longrightarrow>
     execInRepo d r partialCmd cmdOpts envVars s = (Inl RepositoryAlreadyDestroyed, s)"
  by (simp add: execInRepo_def)

lemma foldl_logger_debug:
  "foldl (\<lambda>acc line. logger_debug (f line) acc) s ls = s\<lparr>debugLog := debugLog s @ map f ls\<rparr>"
  by (induction ls arbitrary: s) (simp_all add: logger_debug_def)

lemma sh_pushd_other:
  "destroyed (sh_pushd d dir s) = destroyed s \<and> world (sh_pushd d dir s) = world s \<and>
   execCalls (sh_pushd d dir s) = execCalls s \<and> debugLog (sh_pushd d dir s) = debugLog s"
  by (simp add: sh_pushd_def sh_cd_def split: option.split list.split)

lemma sh_popd_other:
  "destroyed (sh_popd d s) = destroyed s \<and> world (sh_popd d s) = world s \<and>
   execCalls (sh_popd d s) = execCalls s \<and> debugLog (sh_popd d s) = debugLog s"
  by (simp add: sh_popd_def sh_cd_def split: list.split)

lemma not_stack_index: "\<not> isStackIndex dir \<Longrightarrow> dir \<noteq> ''+0''"
  by (auto simp: isStackIndex_def isDigit_def)

lemma sh_pushd_entered:
  assumes "dir \<noteq> []" and "\<not> isStackIndex dir" and "process_chdir d dir (world s)"
  shows "sh_pushd d dir s =
           s\<lparr>cwd := dir, processEnv := AList.update ''OLDPWD'' (Some (cwd s)) (processEnv s),
             dirStack := cwd s # dirStack s\<rparr>"
  using assms not_stack_index [of dir] by (simp add: sh_pushd_def pushdDirs_def sh_cd_def)

lemma execBody_frame:
  "cwd (snd (execBody d partialCmd cmdOpts envVars s)) = cwd s \<and>
   dirStack (snd (execBody d partialCmd cmdOpts envVars s)) = dirStack s \<and>
   destroyed (snd (execBody d partialCmd cmdOpts envVars s)) = destroyed s \<and>
   processEnv (snd (execBody d partialCmd cmdOpts envVars s)) = processEnv s"
  unfolding execBody_def Let_def foldl_logger_debug
  by (simp add: logger_debug_def split: sum.split)

lemma execBody_calls:
  "execCalls (snd (execBody d partialCmd cmdOpts envVars s)) =
     execCalls s @
       [(withOptions (trim partialCmd) cmdOpts, map_option (spread (processEnv s)) envVars, cwd s)]"
  unfolding execBody_def Let_def foldl_logger_debug
  by (simp add: logger_debug_def split: sum.split)

lemma execBody_world:
  "world (snd (execBody d partialCmd cmdOpts envVars s)) =
     snd (sh_exec d (withOptions (trim partialCmd) cmdOpts)
            (map_option (spread (processEnv s)) envVars) (cwd s) (world s))"
  unfolding execBody_def Let_def foldl_logger_debug
  by (simp add: logger_debug_def split: sum.split)

lemma execBody_fst:
  "fst (execBody d partialCmd cmdOpts envVars s) =
     (case fst (sh_exec d (withOptions (trim partialCmd) cmdOpts)
                  (map_option (spread (processEnv s)) envVars) (cwd s) (world s)) of
        Inl e \<Rightarrow> Inl (ExecThrew e)
      | Inr result \<Rightarrow> Inr result)"
  unfolding execBody_def Let_def foldl_logger_debug
  by (simp add: logger_debug_def split: sum.split)

lemma execInRepo_flag:
  "destroyed (snd (execInRepo d r partialCmd cmdOpts envVars s)) = destroyed s"
  using execBody_frame [of d partialCmd cmdOpts envVars "sh_pushd d (directory r) s"]
    sh_pushd_other [of d "directory r" s]
    sh_popd_other [of d "snd (execBody d partialCmd cmdOpts envVars (sh_pushd d (directory r) s))"]
  by (simp add: execInRepo_def Let_def)

lemma execInRepo_calls:
  "execCalls (snd (execInRepo d r partialCmd cmdOpts envVars s)) =
     (if destroyed s then execCalls s
      else execCalls s @
        [(withOptions (trim partialCmd) cmdOpts,
          map_option (spread (processEnv (sh_pushd d (directory r) s))) envVars,
          cwd (sh_pushd d (directory r) s))])"
  using execBody_calls [of d partialCmd cmdOpts envVars "sh_pushd d (directory r) s"]
    sh_pushd_other [of d "directory r" s]
    sh_popd_other [of d "snd (execBody d partialCmd cmdOpts envVars (sh_pushd d (directory r) s))"]
  by (simp add: execInRepo_def Let_def)

lemma execInRepo_fst:
  "fst (execInRepo d r partialCmd cmdOpts envVars s) =
     (if destroyed s then Inl RepositoryAlreadyDestroyed
      else case fst (sh_exec d (withOptions (trim partialCmd) cmdOpts)
                       (map_option (spread (processEnv (sh_pushd d (directory r) s))) envVars)
                       (cwd (sh_pushd d (directory r) s)) (world s)) of
             Inl e \<Rightarrow> Inl (ExecThrew e)
           | Inr result \<Rightarrow> Inr result)"
  using execBody_fst [of d partialCmd cmdOpts envVars "sh_pushd d (directory r) s"]
    sh_pushd_other [of d "directory r" s]
  by (simp add: execInRepo_def Let_def)

lemma execInRepo_world:
  "world (snd (execInRepo d r partialCmd cmdOpts envVars s)) =
     (if destroyed s then world s
      else snd (sh_exec d (withOptions (trim partialCmd) cmdOpts)
                  (map_option (spread (processEnv (sh_pushd d (directory r) s))) envVars)
                  (cwd (sh_pushd d (directory r) s)) (world s)))"
  using execBody_world [of d partialCmd cmdOpts envVars "sh_pushd d (directory r) s"]
    sh_pushd_other [of d "directory r" s]
    sh_popd_other [of d "snd (execBody d partialCmd cmdOpts envVars (sh_pushd d (directory r) s))"]
  by (simp add: execInRepo_def Let_def)

lemma execInRepo_restores:
  assumes "\<not> destroyed s" and "directory r \<noteq> []" and "\<not> isStackIndex (directory r)"
    and "process_chdir d (directory r) (world s)"
    and "process_chdir d (cwd s)
           (snd (sh_exec d (withOptions (trim partialCmd) cmdOpts)
                   (map_option (spread (AList.update ''OLDPWD'' (Some (cwd s)) (processEnv s))) envVars)
                   (directory r) (world s)))"
  shows "cwd (snd (execInRepo d r partialCmd cmdOpts envVars s)) = cwd s"
    and "dirStack (snd (execInRepo d r partialCmd cmdOpts envVars s)) = dirStack s"
proof -
  let ?p = "sh_pushd d (directory r) s"
  let ?b = "snd (execBody d partialCmd cmdOpts envVars ?p)"
  have p: "?p = s\<lparr>cwd := directory r,
                   processEnv := AList.update ''OLDPWD'' (Some (cwd s)) (processEnv s),
                   dirStack := cwd s # dirStack s\<rparr>"
    using assms(2-4) by (rule sh_pushd_entered)
  have b: "cwd ?b = directory r" "dirStack ?b = cwd s # dirStack s"
    using execBody_frame [of d partialCmd cmdOpts envVars ?p] by (simp_all add: p)
  have w: "world ?b =
      snd (sh_exec d (withOptions (trim partialCmd) cmdOpts)
             (map_option (spread (AList.update ''OLDPWD'' (Some (cwd s)) (processEnv s))) envVars)
             (directory r) (world s))"
    using execBody_world [of d partialCmd cmdOpts envVars ?p] by (simp add: p)
  have e: "snd (execInRepo d r partialCmd cmdOpts envVars s) = sh_popd d ?b"
    using assms(1) by (simp add: execInRepo_def Let_def)
  show "cwd (snd (execInRepo d r partialCmd cmdOpts envVars s)) = cwd s"
    unfolding e using b w assms(5) by (simp add: sh_popd_def sh_cd_def)
  show "dirStack (snd (execInRepo d r partialCmd cmdOpts envVars s)) = dirStack s"
    unfolding e using b w assms(5) by (simp add: sh_popd_def sh_cd_def)
qed

lemma execInRepo_dirs:
  assumes "directory r \<noteq> []" and "\<not> isStackIndex (directory r)"
    and "\<And>w. process_chdir d (directory r) w" and "\<And>w. process_chdir d (cwd s) w"
  shows "cwd (snd (execInRepo d r partialCmd cmdOpts envVars s)) = cwd s \<and>
         dirStack (snd (execInRepo d r partialCmd cmdOpts envVars s)) = dirStack s"
proof (cases "destroyed s")
  case True
  then show ?thesis by (simp add: execInRepo_destroyed)
next
  case False
  then show ?thesis
    using execInRepo_restores [of s r d partialCmd cmdOpts envVars] assms by simp
qed

section \<open>What every operation leaves as it was\<close>

text \<open>
  A property \<open>P\<close> of the state that every execution keeps, and that does not depend on
  the world, is kept by every operation but \<^verbatim>\<open>destroy()\<close>.
\<close>

lemma ret_keeps: "P s \<longrightarrow> P (snd (ret a s))"
  by (simp add: ret_def)

lemma andThen_keeps:
  assumes "\<And>s. P s \<longrightarrow> P (snd (m s))" and "\<And>a s. P s \<longrightarrow> P (snd (g a s))"
  shows "P s \<longrightarrow> P (snd (andThen m g s))"
proof
  assume p: "P s"
  show "P (snd (andThen m g s))"
  proof (cases "m s")
    case (Pair x s')
    with assms(1) [of s] p have s': "P s'"
      by simp
    show ?thesis
    proof (cases x)
      case (Inl e)
      with Pair s' show ?thesis by (simp add: andThen_def)
    next
      case (Inr a)
      with Pair s' assms(2) [of s' a] show ?thesis by (simp add: andThen_def)
    qed
  qed
qed

lemma currentBranch_keeps:
  assumes "\<And>c opts ev s. P s \<longrightarrow> P (snd (execInRepo d r c opts ev s))"
  shows "P s \<longrightarrow> P (snd (currentBranch d r s))"
  unfolding currentBranch_def
  by (intro andThen_keeps [where P = P] ret_keeps [where P = P] assms)

lemma config_keeps:
  assumes "\<And>c opts ev s. P s \<longrightarrow> P (snd (execInRepo d r c opts ev s))"
  shows "P s \<longrightarrow> P (snd (config d r key val s))"
  unfolding config_def
  by (intro andThen_keeps [where P = P] ret_keeps [where P = P] assms)

lemma fetch_keeps:
  assumes "\<And>c opts ev s. P s \<longrightarrow> P (snd (execInRepo d r c opts ev s))"
  shows "P s \<longrightarrow> P (snd (fetch d r remote branch opts s))"
  unfolding fetch_def Let_def
  by (intro andThen_keeps [where P = P] ret_keeps [where P = P] assms)

lemma pushArgs_keeps:
  assumes "\<And>c opts ev s. P s \<longrightarrow> P (snd (execInRepo d r c opts ev s))"
  shows "P s \<longrightarrow> P (snd (pushArgs d r lb rb opts s))"
  unfolding pushArgs_def
  by (cases lb; cases rb; simp only: arg.case;
      intro andThen_keeps [where P = P] ret_keeps [where P = P]
        currentBranch_keeps [where P = P] assms)

lemma push_keeps:
  assumes "\<And>c opts ev s. P s \<longrightarrow> P (snd (execInRepo d r c opts ev s))"
  shows "P s \<longrightarrow> P (snd (push d r remote lb rb opts s))"
  unfolding push_def
  by (intro andThen_keeps [where P = P] ret_keeps [where P = P]
        pushArgs_keeps [where P = P] assms)

lemma writeCredentials_keeps:
  assumes "\<And>s w. P (s\<lparr>world := w\<rparr>) = P s"
  shows "P s \<longrightarrow> P (snd (writeCredentials d r tok s))"
  by (simp add: writeCredentials_def assms)

lemma setUserInfo_keeps:
  assumes "\<And>c opts ev s. P s \<longrightarrow> P (snd (execInRepo d r c opts ev s))"
    and "\<And>s w. P (s\<lparr>world := w\<rparr>) = P s"
  shows "P s \<longrightarrow> P (snd (setUserInfo d r nm email tok s))"
proof (cases "tok = None \<or> tok = Some []")
  case True
  then show ?thesis
    unfolding setUserInfo_def
    by (elim disjE; simp only: option.case simp_thms if_True;
        intro andThen_keeps [where P = P] ret_keeps [where P = P] config_keeps [where P = P]
          assms(1))
next
  case False
  then obtain t where "tok = Some t" "t \<noteq> []"
    by (cases tok) auto
  then show ?thesis
    unfolding setUserInfo_def
    by (simp only: option.case if_False;
        intro andThen_keeps [where P = P] ret_keeps [where P = P] config_keeps [where P = P]
          writeCredentials_keeps [where P = P] assms)
qed

lemma getRemoteBranches_keeps:
  assumes "\<And>c opts ev s. P s \<longrightarrow> P (snd (execInRepo d r c opts ev s))"
  shows "P s \<longrightarrow> P (snd (getRemoteBranches d r remote s))"
  unfolding getRemoteBranches_def
  by (intro andThen_keeps [where P = P] fetch_keeps [where P = P] assms) (simp add: Let_def)

lemma perform_keeps:
  assumes "\<And>c opts ev s. P s \<longrightarrow> P (snd (execInRepo d r c opts ev s))"
    and "\<And>s w. P (s\<lparr>world := w\<rparr>) = P s"
    and "op \<noteq> Destroy"
  shows "P s \<longrightarrow> P (snd (perform d r op s))"
  using assms(3)
proof (cases op)
qed (simp_all only: perform.simps void_def addRemote_def checkout_def commit_def
       deleteRemoteBranch_def init_def stage_def operation.distinct simp_thms,
     (intro andThen_keeps [where P = P] ret_keeps [where P = P] currentBranch_keeps [where P = P]
        config_keeps [where P = P] fetch_keeps [where P = P] push_keeps [where P = P]
        setUserInfo_keeps [where P = P] getRemoteBranches_keeps [where P = P] assms(1,2))+)

lemma currentBranch_flag: "destroyed (snd (currentBranch d r s)) = destroyed s"
proof -
  have "destroyed s = destroyed s \<longrightarrow> destroyed (snd (currentBranch d r s)) = destroyed s"
    by (rule currentBranch_keeps [where P = "\<lambda>st. destroyed st = destroyed s"])
       (simp add: execInRepo_flag)
  then show ?thesis by simp
qed

lemma perform_flag:
  "destroyed (snd (perform d r op s)) = (destroyed s \<or> op = Destroy)"
proof (cases "op = Destroy")
  case True
  then show ?thesis by (simp add: void_def andThen_def destroy_def ret_def)
next
  case False
  have "destroyed s = destroyed s \<longrightarrow> destroyed (snd (perform d r op s)) = destroyed s"
    by (rule perform_keeps [where P = "\<lambda>st. destroyed st = destroyed s", OF _ _ False])
       (simp_all add: execInRepo_flag)
  with False show ?thesis by simp
qed

lemma perform_dirs:
  assumes "directory r \<noteq> []" and "\<not> isStackIndex (directory r)"
    and "\<And>w. process_chdir d (directory r) w" and "\<And>w. process_chdir d (cwd s) w"
  shows "cwd (snd (perform d r op s)) = cwd s \<and> dirStack (snd (perform d r op s)) = dirStack s"
proof (cases "op = Destroy")
  case True
  then show ?thesis by (simp add: void_def andThen_def destroy_def ret_def)
next
  case False
  have exec: "cwd st = cwd s \<and> dirStack st = dirStack s \<longrightarrow>
      cwd (snd (execInRepo d r c opts ev st)) = cwd s \<and>
      dirStack (snd (execInRepo d r c opts ev st)) = dirStack s" for c opts ev st
  proof
    assume st: "cwd st = cwd s \<and> dirStack st = dirStack s"
    then have "\<And>w. process_chdir d (cwd st) w"
      using assms(4) by simp
    with assms(1-3) have "cwd (snd (execInRepo d r c opts ev st)) = cwd st \<and>
        dirStack (snd (execInRepo d r c opts ev st)) = dirStack st"
      by (rule execInRepo_dirs)
    with st show "cwd (snd (execInRepo d r c opts ev st)) = cwd s \<and>
        dirStack (snd (execInRepo d r c opts ev st)) = dirStack s"
      by simp
  qed
  have "cwd s = cwd s \<and> dirStack s = dirStack s \<longrightarrow>
      cwd (snd (perform d r op s)) = cwd s \<and> dirStack (snd (perform d r op s)) = dirStack s"
    by (rule perform_keeps [where P = "\<lambda>st. cwd st = cwd s \<and> dirStack st = dirStack s",
          OF _ _ False])
       (simp_all add: exec)
  then show ?thesis by simp
qed

lemma perform_destroyed:
  assumes "destroyed s"
  shows "perform d r op s =
           (if op = Destroy then (Inr Void, s) else (Inl RepositoryAlreadyDestroyed, s))"
proof (cases op)
  case (Push remote lb rb opts)
  show ?thesis using assms unfolding Push
    by (cases lb; cases rb)
       (simp_all add: void_def push_def pushArgs_def currentBranch_def andThen_def ret_def
          execInRepo_destroyed)
next
  case (Fetch remote b opts)
  show ?thesis using assms unfolding Fetch
    by (cases b) (simp_all add: void_def fetch_def andThen_def ret_def execInRepo_destroyed)
next
  case (SetUserInfo nm email tok)
  show ?thesis using assms unfolding SetUserInfo
    by (simp add: void_def setUserInfo_def config_def andThen_def ret_def execInRepo_destroyed)
next
  case (GetRemoteBranches remote)
  show ?thesis using assms unfolding GetRemoteBranches
    by (simp add: getRemoteBranches_def fetch_def andThen_def ret_def execInRepo_destroyed)
qed (use assms in \<open>simp_all add: void_def currentBranch_def addRemote_def checkout_def commit_def
       config_def deleteRemoteBranch_def push_def pushArgs_def destroy_def init_def stage_def
       andThen_def ret_def execInRepo_destroyed\<close>)

section \<open>The destroyed guard\<close>

text \<open>
  C3. \<^verbatim>\<open>destroy()\<close> leaves the session destroyed. On a destroyed session every operation
  but \<^verbatim>\<open>destroy()\<close> throws the error of the guard and changes nothing: the tool does not
  run, the working directory is not touched, nothing is logged. \<^verbatim>\<open>destroy()\<close> on a
  destroyed session returns and changes nothing. The flag after an operation is the flag
  before it, except that \<^verbatim>\<open>destroy()\<close> sets it: it never goes back from true to false.
\<close>

theorem destroyed_session_guard:
  "destroyed (snd (destroy d r s)) \<and>
   (destroyed s \<longrightarrow>
      perform d r op s =
        (if op = Destroy then (Inr Void, s) else (Inl RepositoryAlreadyDestroyed, s))) \<and>
   destroyed (snd (perform d r op s)) = (destroyed s \<or> op = Destroy)"
  using perform_destroyed [of s d r op] perform_flag [of d r op s]
  by (simp add: destroy_def)

text \<open>
  After \<^verbatim>\<open>destroy()\<close> on the example session a commit throws the guard's error,
  a second \<^verbatim>\<open>destroy()\<close> returns, and both leave the state as it is; an operation on the
  live session leaves it live.
\<close>

theorem destroyed_session_guard_witness:
  "destroyed (snd (destroy exampleDeps exampleRepo exampleState)) \<and>
   perform exampleDeps exampleRepo (Commit ''fix'' None)
       (snd (destroy exampleDeps exampleRepo exampleState)) =
     (Inl RepositoryAlreadyDestroyed, snd (destroy exampleDeps exampleRepo exampleState)) \<and>
   perform exampleDeps exampleRepo Destroy (snd (destroy exampleDeps exampleRepo exampleState)) =
     (Inr Void, snd (destroy exampleDeps exampleRepo exampleState)) \<and>
   \<not> destroyed (snd (perform exampleDeps exampleRepo (Init None) exampleState))"
  using destroyed_session_guard [of exampleDeps exampleRepo exampleState "Init None"]
    destroyed_session_guard [of exampleDeps exampleRepo
      "snd (destroy exampleDeps exampleRepo exampleState)" "Commit ''fix'' None"]
    destroyed_session_guard [of exampleDeps exampleRepo
      "snd (destroy exampleDeps exampleRepo exampleState)" Destroy]
  by (simp add: exampleState_def)

section \<open>The working directory\<close>

text \<open>
  C8 as stated fails. The directory \<^verbatim>\<open>/work/gone\<close> of the session is not there:
  \<^verbatim>\<open>sh.pushd\<close> reports the error and returns, the tool runs in \<^verbatim>\<open>/home\<close>, the directory
  of the caller, and \<^verbatim>\<open>sh.popd\<close> takes the caller's own entry off the stack: the tool
  succeeds and the process is left in \<^verbatim>\<open>/tmp\<close>. And when the tool removes the directory
  the caller was in, \<^verbatim>\<open>sh.popd\<close> cannot change back: the process stays in the directory of
  the session.
\<close>

theorem working_directory_counterexample:
  "cwd callerState = ''/home'' \<and> dirStack callerState = [''/tmp''] \<and>
   map_sum id code (fst (execInRepo exampleDeps goneRepo ''git status'' None None callerState)) =
     Inr 0 \<and>
   execCalls (snd (execInRepo exampleDeps goneRepo ''git status'' None None callerState)) =
     [(''git status'', None, ''/home'')] \<and>
   cwd (snd (execInRepo exampleDeps goneRepo ''git status'' None None callerState)) = ''/tmp'' \<and>
   dirStack (snd (execInRepo exampleDeps goneRepo ''git status'' None None callerState)) = [] \<and>
   cwd buildState = ''/work/repo/build'' \<and>
   execCalls (snd (execInRepo exampleDeps exampleRepo ''git clean -fdx'' None None buildState)) =
     [(''git clean -fdx'', None, ''/work/repo'')] \<and>
   cwd (snd (execInRepo exampleDeps exampleRepo ''git clean -fdx'' None None buildState)) =
     ''/work/repo''"
  by (simp add: example_defs goneRepo_def callerState_def buildState_def string_defs options_defs
      exec_defs)

text \<open>
  C8, as the code has it. On a destroyed session an execution throws the error of the guard
  and changes nothing. On a live session whose directory is a directory name (not empty,
  no stack index) that can be entered, the tool runs once, in the directory of the
  session, with \<^verbatim>\<open>OLDPWD\<close> set to the directory of the caller in the environment that
  \<^verbatim>\<open>env\<close> is built from; whatever the outcome (a result with any exit status, returned as
  data, or an error thrown by the invocation), the working directory and the directory
  stack are afterwards as the execution found them, provided the directory of the caller
  can be entered in the world the tool leaves. Where the directory of the session and the
  directory of the caller can be entered in every world, every operation of the class
  leaves the working directory and the stack as they were.
\<close>

theorem working_directory_restored:
  "(destroyed s \<longrightarrow>
      execInRepo d r partialCmd cmdOpts envVars s = (Inl RepositoryAlreadyDestroyed, s)) \<and>
   (\<not> destroyed s \<and> directory r \<noteq> [] \<and> \<not> isStackIndex (directory r) \<and>
    process_chdir d (directory r) (world s) \<and>
    cmd = withOptions (trim partialCmd) cmdOpts \<and>
    env = map_option (spread (AList.update ''OLDPWD'' (Some (cwd s)) (processEnv s))) envVars \<and>
    process_chdir d (cwd s) (snd (sh_exec d cmd env (directory r) (world s))) \<longrightarrow>
      cwd (snd (execInRepo d r partialCmd cmdOpts envVars s)) = cwd s \<and>
      dirStack (snd (execInRepo d r partialCmd cmdOpts envVars s)) = dirStack s \<and>
      execCalls (snd (execInRepo d r partialCmd cmdOpts envVars s)) =
        execCalls s @ [(cmd, env, directory r)] \<and>
      world (snd (execInRepo d r partialCmd cmdOpts envVars s)) =
        snd (sh_exec d cmd env (directory r) (world s)) \<and>
      fst (execInRepo d r partialCmd cmdOpts envVars s) =
        (case fst (sh_exec d cmd env (directory r) (world s)) of
           Inl e \<Rightarrow> Inl (ExecThrew e)
         | Inr result \<Rightarrow> Inr result)) \<and>
   (directory r \<noteq> [] \<and> \<not> isStackIndex (directory r) \<and>
    (\<forall>w. process_chdir d (directory r) w \<and> process_chdir d (cwd s) w) \<longrightarrow>
      cwd (snd (perform d r op s)) = cwd s \<and> dirStack (snd (perform d r op s)) = dirStack s)"
proof (intro conjI impI)
  assume "destroyed s"
  then show "execInRepo d r partialCmd cmdOpts envVars s = (Inl RepositoryAlreadyDestroyed, s)"
    by (rule execInRepo_destroyed)
next
  assume "directory r \<noteq> [] \<and> \<not> isStackIndex (directory r) \<and>
    (\<forall>w. process_chdir d (directory r) w \<and> process_chdir d (cwd s) w)"
  then show "cwd (snd (perform d r op s)) = cwd s"
    and "dirStack (snd (perform d r op s)) = dirStack s"
    using perform_dirs [of r d s op] by simp_all
next
  assume a: "\<not> destroyed s \<and> directory r \<noteq> [] \<and> \<not> isStackIndex (directory r) \<and>
    process_chdir d (directory r) (world s) \<and>
    cmd = withOptions (trim partialCmd) cmdOpts \<and>
    env = map_option (spread (AList.update ''OLDPWD'' (Some (cwd s)) (processEnv s))) envVars \<and>
    process_chdir d (cwd s) (snd (sh_exec d cmd env (directory r) (world s)))"
  then have alive: "\<not> destroyed s"
    and dir: "directory r \<noteq> []" "\<not> isStackIndex (directory r)"
    and there: "process_chdir d (directory r) (world s)"
    and c: "cmd = withOptions (trim partialCmd) cmdOpts"
    and e: "env = map_option (spread (AList.update ''OLDPWD'' (Some (cwd s)) (processEnv s))) envVars"
    and again: "process_chdir d (cwd s) (snd (sh_exec d cmd env (directory r) (world s)))"
    by blast+
  have p: "sh_pushd d (directory r) s =
      s\<lparr>cwd := directory r, processEnv := AList.update ''OLDPWD'' (Some (cwd s)) (processEnv s),
        dirStack := cwd s # dirStack s\<rparr>"
    using dir there by (rule sh_pushd_entered)
  note restores = execInRepo_restores [OF alive dir there again [unfolded c e]]
  show "cwd (snd (execInRepo d r partialCmd cmdOpts envVars s)) = cwd s"
    by (rule restores(1))
  show "dirStack (snd (execInRepo d r partialCmd cmdOpts envVars s)) = dirStack s"
    by (rule restores(2))
  show "execCalls (snd (execInRepo d r partialCmd cmdOpts envVars s)) =
      execCalls s @ [(cmd, env, directory r)]"
    unfolding c e using alive by (simp add: execInRepo_calls p)
  show "world (snd (execInRepo d r partialCmd cmdOpts envVars s)) =
      snd (sh_exec d cmd env (directory r) (world s))"
    unfolding c e using alive by (simp add: execInRepo_world p)
  show "fst (execInRepo d r partialCmd cmdOpts envVars s) =
      (case fst (sh_exec d cmd env (directory r) (world s)) of
         Inl e \<Rightarrow> Inl (ExecThrew e)
       | Inr result \<Rightarrow> Inr result)"
    unfolding c e using alive by (simp add: execInRepo_fst p)
qed

text \<open>
  The three exits on the example host: \<^verbatim>\<open>git init\<close> throws, the checkout of
  \<^verbatim>\<open>missing\<close> ends with exit status 1, \<^verbatim>\<open>git status\<close> succeeds. Each time the process
  is back in \<^verbatim>\<open>/home\<close>, and the tool ran in \<^verbatim>\<open>/work/repo\<close>. So is it after a commit,
  which runs the tool twice.
\<close>

theorem working_directory_restored_witness:
  "fst (execInRepo exampleDeps exampleRepo ''git init'' None None exampleState) =
     Inl (ExecThrew ''spawn failed'') \<and>
   cwd (snd (execInRepo exampleDeps exampleRepo ''git init'' None None exampleState)) = ''/home'' \<and>
   map_sum id code
       (fst (execInRepo exampleDeps exampleRepo ''git checkout missing'' None None exampleState)) =
     Inr 1 \<and>
   cwd (snd (execInRepo exampleDeps exampleRepo ''git checkout missing'' None None exampleState)) =
     ''/home'' \<and>
   map_sum id code (fst (execInRepo exampleDeps exampleRepo ''git status'' None None exampleState)) =
     Inr 0 \<and>
   cwd (snd (execInRepo exampleDeps exampleRepo ''git status'' None None exampleState)) = ''/home'' \<and>
   dirStack (snd (execInRepo exampleDeps exampleRepo ''git status'' None None exampleState)) = [] \<and>
   map snd (execCalls (snd (execInRepo exampleDeps exampleRepo ''git status'' None None exampleState))) =
     [(None, ''/work/repo'')] \<and>
   cwd (snd (perform exampleDeps exampleRepo (Commit ''fix'' None) exampleState)) = ''/home'' \<and>
   dirStack (snd (perform exampleDeps exampleRepo (Commit ''fix'' None) exampleState)) = []"
  using working_directory_restored [where d = exampleDeps and r = exampleRepo
      and partialCmd = "''git init''" and cmdOpts = None and envVars = None and s = exampleState
      and cmd = "''git init''" and env = None and op = "Commit ''fix'' None"]
    working_directory_restored [where d = exampleDeps and r = exampleRepo
      and partialCmd = "''git checkout missing''" and cmdOpts = None and envVars = None
      and s = exampleState and cmd = "''git checkout missing''" and env = None and op = Destroy]
    working_directory_restored [where d = exampleDeps and r = exampleRepo
      and partialCmd = "''git status''" and cmdOpts = None and envVars = None and s = exampleState
      and cmd = "''git status''" and env = None and op = Destroy]
  by (simp add: example_defs string_defs options_defs isStackIndex_def)

section \<open>The overloads of \<^verbatim>\<open>push\<close>\<close>

lemma currentBranch_result:
  "fst (currentBranch d r s) =
     (if destroyed s then Inl RepositoryAlreadyDestroyed
      else case fst (sh_exec d ''git rev-parse --abbrev-ref HEAD'' None
                       (cwd (sh_pushd d (directory r) s)) (world s)) of
             Inl e \<Rightarrow> Inl (ExecThrew e)
           | Inr result \<Rightarrow> Inr (trim (stdout result)))"
proof -
  have t: "trim ''git rev-parse --abbrev-ref HEAD'' = ''git rev-parse --abbrev-ref HEAD''"
    by (simp add: trim_def isWhiteSpace_def)
  obtain x s' where e: "execInRepo d r ''git rev-parse --abbrev-ref HEAD'' None None s = (x, s')"
    by (cases "execInRepo d r ''git rev-parse --abbrev-ref HEAD'' None None s")
  with execInRepo_fst [of d r "''git rev-parse --abbrev-ref HEAD''" None None s]
  show ?thesis
    by (cases x)
       (auto simp: currentBranch_def andThen_def ret_def t withOptions_None
          split: sum.splits if_splits)
qed

lemma currentBranch_alive:
  assumes "currentBranch d r s = (Inr cb, s1)"
  shows "\<not> destroyed s1"
proof -
  from assms currentBranch_result [of d r s] have "\<not> destroyed s" by (auto split: if_splits)
  with currentBranch_flag [of d r s] assms show ?thesis by simp
qed

lemma push_resolved:
  assumes "pushArgs d r lb rb opts s = (Inr (ro, l, rr), s1)"
  shows "execCalls (snd (push d r remote lb rb opts s)) =
     (if destroyed s1 then execCalls s1
      else execCalls s1 @
        [(withOptions (trim (''git push '' @ remote @ '' '' @ l @ '':'' @ rr)) ro, None,
          cwd (sh_pushd d (directory r) s1))])"
proof -
  have "push d r remote lb rb opts s =
      andThen (execInRepo d r (''git push '' @ remote @ '' '' @ l @ '':'' @ rr) ro None)
        (\<lambda>_. ret ()) s1"
    unfolding push_def using assms by (simp add: andThen_Inr)
  then show ?thesis
    using execInRepo_calls [of d r "''git push '' @ remote @ '' '' @ l @ '':'' @ rr" ro None s1]
    by (simp only: andThen_ret_snd) simp
qed

lemma push_two_strings:
  "execCalls (snd (push d r remote (AString lb) (AString rb) opts s)) =
     (if destroyed s then execCalls s
      else execCalls s @
        [(withOptions (trim (''git push '' @ remote @ '' '' @ lb @ '':'' @ rb)) opts, None,
          cwd (sh_pushd d (directory r) s))])"
  by (rule push_resolved) (simp add: pushArgs_def ret_def)

lemma push_remote_only:
  assumes "\<forall>v. a \<noteq> AString v" and "currentBranch d r s = (Inr cb, s1)"
  shows "execCalls (snd (push d r remote (AString rb) a opts s)) =
           execCalls s1 @
             [(withOptions (trim (''git push '' @ remote @ '' '' @ cb @ '':'' @ rb)) (asOptions a),
               None, cwd (sh_pushd d (directory r) s1))]"
proof -
  from assms(2) have alive: "\<not> destroyed s1" by (rule currentBranch_alive)
  from assms have "pushArgs d r (AString rb) a opts s = (Inr (asOptions a, cb, rb), s1)"
    by (cases a) (simp_all add: pushArgs_def andThen_Inr ret_def)
  from push_resolved [OF this] alive show ?thesis by simp
qed

lemma push_no_branch:
  assumes "\<forall>v. a \<noteq> AString v" and "currentBranch d r s = (Inr cb, s1)"
  shows "execCalls (snd (push d r remote a b opts s)) =
           execCalls s1 @
             [(withOptions (trim (''git push '' @ remote @ '' '' @ cb @ '':'' @ cb)) (asOptions a),
               None, cwd (sh_pushd d (directory r) s1))]"
proof -
  from assms(2) have alive: "\<not> destroyed s1" by (rule currentBranch_alive)
  from assms have "pushArgs d r a b opts s = (Inr (asOptions a, cb, cb), s1)"
    by (cases a) (simp_all add: pushArgs_def andThen_Inr ret_def)
  from push_resolved [OF this] alive show ?thesis by simp
qed

lemma push_branch_unreadable:
  assumes "\<forall>v. a \<noteq> AString v" and "currentBranch d r s = (Inl e, s1)"
  shows "push d r remote a b opts s = (Inl e, s1)"
    and "push d r remote (AString rb) a opts s = (Inl e, s1)"
  using assms by (cases a; simp add: push_def pushArgs_def andThen_Inl)+

text \<open>
  C1 as stated fails. On the example host the current branch is \<^verbatim>\<open>main\<close>, and
  \<^verbatim>\<open>push("origin", "feat")\<close> runs \<^verbatim>\<open>git push origin main:feat\<close>: it never runs
  \<^verbatim>\<open>git push origin feat:feat\<close>.
\<close>

theorem push_single_branch_counterexample:
  "fst (currentBranch exampleDeps exampleRepo exampleState) = Inr ''main'' \<and>
   commands (snd (push exampleDeps exampleRepo ''origin'' (AString ''feat'') AUndefined None
       exampleState)) =
     [''git rev-parse --abbrev-ref HEAD'', ''git push origin main:feat''] \<and>
   ''git push origin feat:feat'' \<notin>
     set (commands (snd (push exampleDeps exampleRepo ''origin'' (AString ''feat'') AUndefined None
       exampleState)))"
  by (simp add: example_defs string_defs options_defs exec_defs currentBranch_def push_def
      pushArgs_def)

text \<open>
  C1, as the code has it. The current branch is the trimmed output of
  \<^verbatim>\<open>git rev-parse --abbrev-ref HEAD\<close>. With two branch names the command is
  \<^verbatim>\<open>git push remote localBranch:remoteBranch\<close>, followed by the rendered options. A single
  branch name is the remote branch, and the local branch falls back to the current branch:
  \<^verbatim>\<open>git push remote current:remoteBranch\<close>. With no branch name both fall back to the
  current branch. In the last two forms the options are the first argument that is no string,
  and an error thrown while the current branch is read is thrown by \<^verbatim>\<open>push\<close>, which then
  runs no push command.
\<close>

theorem push_overload_resolution:
  "fst (currentBranch d r s) =
     (if destroyed s then Inl RepositoryAlreadyDestroyed
      else case fst (sh_exec d ''git rev-parse --abbrev-ref HEAD'' None
                       (cwd (sh_pushd d (directory r) s)) (world s)) of
             Inl e \<Rightarrow> Inl (ExecThrew e)
           | Inr result \<Rightarrow> Inr (trim (stdout result))) \<and>
   execCalls (snd (push d r remote (AString lb) (AString rb) opts s)) =
     (if destroyed s then execCalls s
      else execCalls s @
        [(withOptions (trim (''git push '' @ remote @ '' '' @ lb @ '':'' @ rb)) opts, None,
          cwd (sh_pushd d (directory r) s))]) \<and>
   ((\<forall>v. a \<noteq> AString v) \<and> currentBranch d r s = (Inr cb, s') \<longrightarrow>
      execCalls (snd (push d r remote (AString rb) a opts s)) =
        execCalls s' @
          [(withOptions (trim (''git push '' @ remote @ '' '' @ cb @ '':'' @ rb)) (asOptions a),
            None, cwd (sh_pushd d (directory r) s'))] \<and>
      execCalls (snd (push d r remote a b opts s)) =
        execCalls s' @
          [(withOptions (trim (''git push '' @ remote @ '' '' @ cb @ '':'' @ cb)) (asOptions a),
            None, cwd (sh_pushd d (directory r) s'))]) \<and>
   ((\<forall>v. a \<noteq> AString v) \<and> currentBranch d r s = (Inl err, s') \<longrightarrow>
      push d r remote (AString rb) a opts s = (Inl err, s') \<and>
      push d r remote a b opts s = (Inl err, s'))"
proof (intro conjI impI)
  show "fst (currentBranch d r s) =
     (if destroyed s then Inl RepositoryAlreadyDestroyed
      else case fst (sh_exec d ''git rev-parse --abbrev-ref HEAD'' None
                       (cwd (sh_pushd d (directory r) s)) (world s)) of
             Inl e \<Rightarrow> Inl (ExecThrew e)
           | Inr result \<Rightarrow> Inr (trim (stdout result)))"
    by (rule currentBranch_result)
  show "execCalls (snd (push d r remote (AString lb) (AString rb) opts s)) =
     (if destroyed s then execCalls s
      else execCalls s @
        [(withOptions (trim (''git push '' @ remote @ '' '' @ lb @ '':'' @ rb)) opts, None,
          cwd (sh_pushd d (directory r) s))])"
    by (rule push_two_strings)
next
  assume "(\<forall>v. a \<noteq> AString v) \<and> currentBranch d r s = (Inr cb, s')"
  then have a: "\<forall>v. a \<noteq> AString v" and c: "currentBranch d r s = (Inr cb, s')"
    by simp_all
  show "execCalls (snd (push d r remote (AString rb) a opts s)) =
        execCalls s' @
          [(withOptions (trim (''git push '' @ remote @ '' '' @ cb @ '':'' @ rb)) (asOptions a),
            None, cwd (sh_pushd d (directory r) s'))]"
    using a c by (rule push_remote_only)
  show "execCalls (snd (push d r remote a b opts s)) =
        execCalls s' @
          [(withOptions (trim (''git push '' @ remote @ '' '' @ cb @ '':'' @ cb)) (asOptions a),
            None, cwd (sh_pushd d (directory r) s'))]"
    using a c by (rule push_no_branch)
next
  assume "(\<forall>v. a \<noteq> AString v) \<and> currentBranch d r s = (Inl err, s')"
  then have a: "\<forall>v. a \<noteq> AString v" and c: "currentBranch d r s = (Inl err, s')"
    by simp_all
  show "push d r remote (AString rb) a opts s = (Inl err, s')"
    using a c by (rule push_branch_unreadable(2))
  show "push d r remote a b opts s = (Inl err, s')"
    using a c by (rule push_branch_unreadable(1))
qed

text \<open>
  On branch \<^verbatim>\<open>main\<close>: \<^verbatim>\<open>push("origin")\<close> runs \<^verbatim>\<open>git push origin main:main\<close>,
  \<^verbatim>\<open>push("origin", "feat")\<close> runs \<^verbatim>\<open>git push origin main:feat\<close>,
  \<^verbatim>\<open>push("origin", "local", "remote")\<close> runs \<^verbatim>\<open>git push origin local:remote\<close>; on the
  destroyed session reading the branch throws, and so does \<^verbatim>\<open>push\<close>.
\<close>

theorem push_overload_resolution_witness:
  "commands (snd (push exampleDeps exampleRepo ''origin'' AUndefined AUndefined None exampleState)) =
     [''git rev-parse --abbrev-ref HEAD'', ''git push origin main:main''] \<and>
   commands (snd (push exampleDeps exampleRepo ''origin'' (AString ''feat'') AUndefined None exampleState)) =
     [''git rev-parse --abbrev-ref HEAD'', ''git push origin main:feat''] \<and>
   commands (snd (push exampleDeps exampleRepo ''origin'' (AString ''local'') (AString ''remote'') None
       exampleState)) =
     [''git push origin local:remote''] \<and>
   push exampleDeps exampleRepo ''origin'' AUndefined AUndefined None
       (snd (destroy exampleDeps exampleRepo exampleState)) =
     (Inl RepositoryAlreadyDestroyed, snd (destroy exampleDeps exampleRepo exampleState))"
  using push_overload_resolution [where d = exampleDeps and r = exampleRepo and s = exampleState
      and remote = "''origin''" and lb = "''local''" and rb = "''remote''" and opts = None
      and a = AUndefined and b = AUndefined and cb = "''main''"
      and s' = "snd (currentBranch exampleDeps exampleRepo exampleState)"
      and err = RepositoryAlreadyDestroyed]
    push_overload_resolution [where d = exampleDeps and r = exampleRepo and s = exampleState
      and remote = "''origin''" and lb = "''local''" and rb = "''feat''" and opts = None
      and a = AUndefined and b = AUndefined and cb = "''main''"
      and s' = "snd (currentBranch exampleDeps exampleRepo exampleState)"
      and err = RepositoryAlreadyDestroyed]
    push_overload_resolution [where d = exampleDeps and r = exampleRepo
      and s = "snd (destroy exampleDeps exampleRepo exampleState)"
      and remote = "''origin''" and lb = "''local''" and rb = "''feat''" and opts = None
      and a = AUndefined and b = AUndefined and cb = "''main''"
      and s' = "snd (destroy exampleDeps exampleRepo exampleState)"
      and err = RepositoryAlreadyDestroyed]
  by (simp add: example_defs string_defs options_defs exec_defs currentBranch_def destroy_def)

section \<open>The rendering of options\<close>

text \<open>
  C4. Taking the flags whose value is \<^verbatim>\<open>false\<close> or \<^verbatim>\<open>undefined\<close> out of an options
  object does not change the rendered command, and the flags that are rendered are those of
  the other entries, in the order of the object. Rendering goes entry by entry, left to
  right. A list value renders the flag once per element, in list order, each time as
  \<^verbatim>\<open>flag value\<close> trimmed; a string renders it once; \<^verbatim>\<open>true\<close> renders the flag alone (as it
  is, unless the name ends in white space, which the trim takes away). A name of length 1
  gets one dash, every other name two.
\<close>

theorem option_rendering:
  "withOptions cmd
     (Some (filter (\<lambda>e. fst e = ''--'' \<or> (snd e \<noteq> VUndefined \<and> snd e \<noteq> VBool False)) opts)) =
     withOptions cmd (Some opts) \<and>
   map fst (normalizedCmdOpts (Some opts)) =
     map (\<lambda>e. flagName (fst e))
       (filter (\<lambda>e. fst e \<noteq> ''--'' \<and> snd e \<noteq> VUndefined \<and> snd e \<noteq> VBool False) opts) \<and>
   (''--'' \<notin> fst ` set pre \<longrightarrow>
      withOptions cmd (Some (pre @ post)) = withOptions (withOptions cmd (Some pre)) (Some post)) \<and>
   (k \<noteq> ''--'' \<longrightarrow>
      withOptions cmd (Some [(k, VList vs)]) =
        cmd @ '' '' @ join '' '' (map (\<lambda>v. trim (flagName k @ '' '' @ v)) vs) \<and>
      withOptions cmd (Some [(k, VStr v)]) = cmd @ '' '' @ trim (flagName k @ '' '' @ v) \<and>
      withOptions cmd (Some [(k, VBool True)]) = cmd @ '' '' @ trim (flagName k) \<and>
      withOptions cmd (Some [(k, VBool False)]) = cmd \<and>
      withOptions cmd (Some [(k, VUndefined)]) = cmd) \<and>
   (k = [] \<or> \<not> isWhiteSpace (last k) \<longrightarrow> trim (flagName k) = flagName k) \<and>
   (length k = 1 \<longrightarrow> flagName k = ''-'' @ k) \<and>
   (length k \<noteq> 1 \<longrightarrow> flagName k = ''--'' @ k)"
  using withOptions_filter [of cmd opts] normalizedCmdOpts_flags [of opts]
    withOptions_append [of pre cmd post] withOptions_single [of k cmd] trim_flagName [of k]
  by (simp add: flagName_def)

text \<open>
  The examples of the spec: \<^verbatim>\<open>name: ["a", "b"]\<close> renders as \<^verbatim>\<open>--name a --name b\<close>,
  \<^verbatim>\<open>x: true\<close> as \<^verbatim>\<open>-x\<close>, and entries with \<^verbatim>\<open>false\<close> and \<^verbatim>\<open>undefined\<close> leave no trace.
\<close>

theorem option_rendering_witness:
  "withOptions ''git log'' (Some [(''name'', VList [''a'', ''b''])]) = ''git log --name a --name b'' \<and>
   withOptions ''git log'' (Some [(''x'', VBool True)]) = ''git log -x'' \<and>
   withOptions ''git log''
     (Some [(''quiet'', VBool False), (''name'', VList [''a'', ''b'']), (''all'', VUndefined),
            (''x'', VBool True)]) =
     ''git log --name a --name b -x'' \<and>
   flagName ''x'' = ''-x'' \<and> flagName ''name'' = ''--name'' \<and>
   trim (flagName ''name'') = ''--name''"
proof -
  let ?all = "[(''quiet'', VBool False), (''name'', VList [''a'', ''b'']), (''all'', VUndefined),
               (''x'', VBool True)]"
  let ?name = "[(''name'', VList [''a'', ''b''])]"
  let ?x = "[(''x'', VBool True)]"
  note long = option_rendering [where cmd = "''git log''" and opts = ?all
      and pre = ?name and post = ?x and k = "''name''" and vs = "[''a'', ''b'']" and v = "''a''"]
  note short = option_rendering [where cmd = "''git log''" and opts = "[]" and pre = "[]"
      and post = "[]" and k = "''x''" and vs = "[]" and v = "[]"]
  note after = option_rendering [where cmd = "''git log --name a --name b''" and opts = "[]"
      and pre = "[]" and post = "[]" and k = "''x''" and vs = "[]" and v = "[]"]
  have key: "''name'' \<noteq> ''--''" "''x'' \<noteq> ''--''" "''--'' \<notin> fst ` set ?name"
    "length ''x'' = 1" "length ''name'' \<noteq> 1"
    by simp_all
  have "flagName ''x'' = ''-'' @ ''x''"
    using short key by blast
  moreover have "flagName ''name'' = ''--'' @ ''name''"
    using long key by blast
  ultimately have flags: "flagName ''x'' = ''-x''" "flagName ''name'' = ''--name''"
    by simp_all
  have "withOptions ''git log'' (Some ?name) =
      ''git log'' @ '' '' @ join '' '' (map (\<lambda>v. trim (flagName ''name'' @ '' '' @ v)) [''a'', ''b''])"
    using long key by blast
  then have name: "withOptions ''git log'' (Some ?name) = ''git log --name a --name b''"
    by (simp add: flags string_defs)
  have "withOptions ''git log'' (Some ?x) = ''git log'' @ '' '' @ trim (flagName ''x'')"
    using short key by blast
  then have x: "withOptions ''git log'' (Some ?x) = ''git log -x''"
    by (simp add: flags string_defs)
  have "withOptions ''git log''
      (Some (filter (\<lambda>e. fst e = ''--'' \<or> (snd e \<noteq> VUndefined \<and> snd e \<noteq> VBool False)) ?all)) =
      withOptions ''git log'' (Some ?all)"
    using long by blast
  then have "withOptions ''git log'' (Some ?all) = withOptions ''git log'' (Some (?name @ ?x))"
    by simp
  also have "\<dots> = withOptions (withOptions ''git log'' (Some ?name)) (Some ?x)"
    using long key by blast
  also have "\<dots> = withOptions ''git log --name a --name b'' (Some ?x)"
    by (simp only: name)
  also have "\<dots> = ''git log --name a --name b'' @ '' '' @ trim (flagName ''x'')"
    using after key by blast
  also have "\<dots> = ''git log --name a --name b -x''"
    by (simp add: flags string_defs)
  finally have "withOptions ''git log'' (Some ?all) = ''git log --name a --name b -x''" .
  moreover have "''name'' = [] \<or> \<not> isWhiteSpace (last ''name'')"
    by (simp add: isWhiteSpace_def)
  then have "trim (flagName ''name'') = flagName ''name''"
    using long by blast
  ultimately show ?thesis using name x flags by simp
qed

section \<open>Trailing arguments\<close>

lemma trim_git_add: "trim ''git add'' = ''git add''"
  by (simp add: trim_def isWhiteSpace_def)

lemma stage_calls:
  "execCalls (snd (stage d r files opts s)) =
     (if destroyed s then execCalls s
      else execCalls s @
        [(withOptions ''git add'' (Some (filter (\<lambda>e. fst e \<noteq> ''--'') (orEmpty opts))) @
            '' -- '' @ join '' '' files,
          None, cwd (sh_pushd d (directory r) s))])"
proof -
  let ?o = "AList.update ''--'' (VList files) (orEmpty opts)"
  have m: "map_of ?o ''--'' = Some (VList files)" by (simp add: update_conv')
  obtain x s' where e: "execInRepo d r ''git add'' (Some ?o) None s = (x, s')"
    by (cases "execInRepo d r ''git add'' (Some ?o) None s")
  have "snd (stage d r files opts s) = s'"
    using e by (cases x) (simp_all add: stage_def andThen_def ret_def)
  moreover have "execCalls s' = (if destroyed s then execCalls s
      else execCalls s @
        [(withOptions (trim ''git add'') (Some ?o), None, cwd (sh_pushd d (directory r) s))])"
    using execInRepo_calls [of d r "''git add''" "Some ?o" None s] e by simp
  ultimately show ?thesis
    by (simp add: withOptions_args [OF m] filter_update trim_git_add)
qed

text \<open>
  C5. When the \<^verbatim>\<open>'--'\<close> key holds a list, the command is the command rendered without that
  key, then \<^verbatim>\<open>" -- "\<close>, then the elements of the list joined by single spaces in their
  order: wherever the key stands in the object, its values come after every rendered flag.
  \<^verbatim>\<open>stage(files, opts)\<close> runs \<^verbatim>\<open>git add\<close> with the flags of \<^verbatim>\<open>opts\<close> and the files
  rendered this way.
\<close>

theorem trailing_arguments_rendering:
  "(map_of opts ''--'' = Some (VList args) \<longrightarrow>
      withOptions cmd (Some opts) =
        withOptions cmd (Some (filter (\<lambda>e. fst e \<noteq> ''--'') opts)) @ '' -- '' @ join '' '' args) \<and>
   withOptions cmd (Some (filter (\<lambda>e. fst e \<noteq> ''--'') opts)) =
     (if normalizedCmdOpts (Some opts) = [] then cmd
      else cmd @ '' '' @ join '' '' (map renderOpt (normalizedCmdOpts (Some opts)))) \<and>
   execCalls (snd (stage d r files stageOpts s)) =
     (if destroyed s then execCalls s
      else execCalls s @
        [(withOptions ''git add'' (Some (filter (\<lambda>e. fst e \<noteq> ''--'') (orEmpty stageOpts))) @
            '' -- '' @ join '' '' files,
          None, cwd (sh_pushd d (directory r) s))])"
proof (intro conjI impI)
  assume "map_of opts ''--'' = Some (VList args)"
  then show "withOptions cmd (Some opts) =
        withOptions cmd (Some (filter (\<lambda>e. fst e \<noteq> ''--'') opts)) @ '' -- '' @ join '' '' args"
    by (rule withOptions_args)
next
  have o: "normalizedCmdOpts (Some (filter (\<lambda>e. fst e \<noteq> ''--'') opts)) = normalizedCmdOpts (Some opts)"
    by (simp add: normalizedCmdOpts_def cmdOptsOf_def)
  have n: "normalizedCmdArgs (Some (filter (\<lambda>e. fst e \<noteq> ''--'') opts)) = None"
    by (rule normalizedCmdArgs_no_key) auto
  show "withOptions cmd (Some (filter (\<lambda>e. fst e \<noteq> ''--'') opts)) =
     (if normalizedCmdOpts (Some opts) = [] then cmd
      else cmd @ '' '' @ join '' '' (map renderOpt (normalizedCmdOpts (Some opts))))"
    by (simp add: withOptions_def o n)
next
  show "execCalls (snd (stage d r files stageOpts s)) =
     (if destroyed s then execCalls s
      else execCalls s @
        [(withOptions ''git add'' (Some (filter (\<lambda>e. fst e \<noteq> ''--'') (orEmpty stageOpts))) @
            '' -- '' @ join '' '' files,
          None, cwd (sh_pushd d (directory r) s))])"
    by (rule stage_calls)
qed

text \<open>
  The key stands first in the object and is rendered last; staging two files with
  \<^verbatim>\<open>force: true\<close> runs \<^verbatim>\<open>git add --force -- a.txt b.txt\<close>.
\<close>

theorem trailing_arguments_rendering_witness:
  "withOptions ''git add''
     (Some [(''--'', VList [''a.txt'', ''b.txt'']), (''force'', VBool True), (''n'', VBool True)]) =
     ''git add --force -n -- a.txt b.txt'' \<and>
   commands (snd (stage exampleDeps exampleRepo [''a.txt'', ''b.txt''] (Some [(''force'', VBool True)])
       exampleState)) =
     [''git add --force -- a.txt b.txt'']"
  using trailing_arguments_rendering [where cmd = "''git add''"
      and opts = "[(''--'', VList [''a.txt'', ''b.txt'']), (''force'', VBool True), (''n'', VBool True)]"
      and args = "[''a.txt'', ''b.txt'']" and d = exampleDeps and r = exampleRepo
      and files = "[''a.txt'', ''b.txt'']" and stageOpts = "Some [(''force'', VBool True)]"
      and s = exampleState]
  by (simp add: example_defs string_defs options_defs commands_def)

section \<open>The overloads of \<^verbatim>\<open>fetch\<close>\<close>

lemma fetch_calls:
  "execCalls (snd (fetch d r remote (AOptions obj) opts s)) =
     (if destroyed s then execCalls s
      else execCalls s @
        [(withOptions (trim (''git fetch '' @ remote @ '' '')) (Some obj), None,
          cwd (sh_pushd d (directory r) s))])"
  using execInRepo_calls [of d r "''git fetch '' @ remote @ '' ''" "Some obj" None s]
  by (simp add: fetch_def andThen_ret_snd)

lemma fetch_depth_example:
  "withOptions (trim ''git fetch origin '') (Some [(''depth'', VStr ''1'')]) = ''git fetch origin --depth 1''"
  by (simp add: trim_def isWhiteSpace_def withOptions_def normalizedCmdOpts_def normalizedCmdArgs_def
      cmdArgsOf_def cmdOptsOf_def renderOpt_def flagName_def)

text \<open>
  C6. \<^verbatim>\<open>fetch\<close> with a second argument that is no string behaves as \<^verbatim>\<open>fetch\<close> with the
  empty branch and that argument as the options: an options object is never part of the
  command as a branch name. The command is \<^verbatim>\<open>git fetch remote\<close> (the partial command
  \<^verbatim>\<open>`git fetch ${remote} `\<close> trimmed) followed by the rendered options;
  \<^verbatim>\<open>fetch("origin", {depth: "1"})\<close> gives \<^verbatim>\<open>git fetch origin --depth 1\<close>.
\<close>

theorem fetch_options_overload:
  "fetch d r remote (AOptions obj) opts s = fetch d r remote (AString []) (Some obj) s \<and>
   fetch d r remote AUndefined opts s = fetch d r remote (AString []) None s \<and>
   execCalls (snd (fetch d r remote (AOptions obj) opts s)) =
     (if destroyed s then execCalls s
      else execCalls s @
        [(withOptions (trim (''git fetch '' @ remote @ '' '')) (Some obj), None,
          cwd (sh_pushd d (directory r) s))]) \<and>
   withOptions (trim ''git fetch origin '') (Some [(''depth'', VStr ''1'')]) =
     ''git fetch origin --depth 1''"
  using fetch_calls [of d r remote obj opts s] fetch_depth_example
  by (simp add: fetch_def)

text \<open>On the example host the one command that runs is \<^verbatim>\<open>git fetch origin --depth 1\<close>.\<close>

theorem fetch_options_overload_witness:
  "commands (snd (fetch exampleDeps exampleRepo ''origin'' (AOptions [(''depth'', VStr ''1'')]) None
       exampleState)) =
     [''git fetch origin --depth 1'']"
proof -
  have "execCalls (snd (fetch exampleDeps exampleRepo ''origin'' (AOptions [(''depth'', VStr ''1'')]) None
          exampleState)) =
      (if destroyed exampleState then execCalls exampleState
       else execCalls exampleState @
         [(withOptions (trim (''git fetch '' @ ''origin'' @ '' '')) (Some [(''depth'', VStr ''1'')]),
           None, cwd (sh_pushd exampleDeps (directory exampleRepo) exampleState))])"
    using fetch_options_overload [where d = exampleDeps and r = exampleRepo and remote = "''origin''"
      and obj = "[(''depth'', VStr ''1'')]" and opts = None and s = exampleState]
    by blast
  then show ?thesis
    by (simp add: example_defs string_defs options_defs commands_def)
qed

section \<open>\<^verbatim>\<open>deleteRemoteBranch\<close>\<close>

lemma deleteRemoteBranch_calls:
  "execCalls (snd (deleteRemoteBranch d r remote branch opts s)) =
     (if destroyed s then execCalls s
      else execCalls s @
        [(trim (''git push '' @ remote @ '' :'' @ branch), None, cwd (sh_pushd d (directory r) s))])"
  using push_two_strings [of d r remote "[]" branch None s]
  by (simp add: deleteRemoteBranch_def withOptions_None)

text \<open>
  C9. \<^verbatim>\<open>deleteRemoteBranch\<close> does not use its options: with any options it does what it
  does with none, which is \<^verbatim>\<open>push(remote, '', branch)\<close>, and the command that runs is
  \<^verbatim>\<open>git push remote :branch\<close> with no flag.
\<close>

theorem deleteRemoteBranch_ignores_options:
  "deleteRemoteBranch d r remote branch opts s = deleteRemoteBranch d r remote branch None s \<and>
   deleteRemoteBranch d r remote branch opts s = push d r remote (AString []) (AString branch) None s \<and>
   execCalls (snd (deleteRemoteBranch d r remote branch opts s)) =
     (if destroyed s then execCalls s
      else execCalls s @
        [(trim (''git push '' @ remote @ '' :'' @ branch), None, cwd (sh_pushd d (directory r) s))])"
  using deleteRemoteBranch_calls [of d r remote branch opts s]
  by (simp add: deleteRemoteBranch_def)

text \<open>With \<^verbatim>\<open>force: true\<close> passed, the command is still \<^verbatim>\<open>git push origin :old\<close>.\<close>

theorem deleteRemoteBranch_ignores_options_witness:
  "commands (snd (deleteRemoteBranch exampleDeps exampleRepo ''origin'' ''old''
       (Some [(''force'', VBool True)]) exampleState)) =
     [''git push origin :old'']"
proof -
  have "execCalls (snd (deleteRemoteBranch exampleDeps exampleRepo ''origin'' ''old''
          (Some [(''force'', VBool True)]) exampleState)) =
      (if destroyed exampleState then execCalls exampleState
       else execCalls exampleState @
         [(trim (''git push '' @ ''origin'' @ '' :'' @ ''old''), None,
           cwd (sh_pushd exampleDeps (directory exampleRepo) exampleState))])"
    using deleteRemoteBranch_ignores_options [where d = exampleDeps and r = exampleRepo
      and remote = "''origin''" and branch = "''old''" and opts = "Some [(''force'', VBool True)]"
      and s = exampleState]
    by blast
  then show ?thesis
    by (simp add: example_defs string_defs commands_def)
qed

section \<open>\<^verbatim>\<open>getRemoteBranches\<close>\<close>

lemma stripRemote_kept:
  "map (stripRemote remote) (filter (\<lambda>line. startsWith line (remote @ ''/'')) ls) =
   map (drop (Suc (length remote))) (filter (\<lambda>line. startsWith line (remote @ ''/'')) ls)"
  by (induction ls) (simp_all add: stripRemote_def)

lemma getRemoteBranches_result:
  assumes "fetch d r remote (AOptions [(''depth'', VStr ''1''), (''no-tags'', VBool True)]) None s =
      (Inr (), s1)"
    and "execInRepo d r ''git branch'' (Some [(''remote'', VBool True)]) None s1 = (Inr result, s2)"
    and "\<not> list_ex isSyntaxCharacter remote"
  shows "getRemoteBranches d r remote s =
           (Inr (map (drop (Suc (length remote)))
                   (filter (\<lambda>line. startsWith line (remote @ ''/''))
                      (map trim (splitLF (stdout result))))),
            s2)"
  unfolding getRemoteBranches_def
  using assms
  by (simp add: andThen_Inr Let_def stripRemote_kept)

lemma filter_map_nonempty:
  "\<not> P (f []) \<Longrightarrow> filter P (map f ls) = filter P (map f (filter (\<lambda>l. l \<noteq> []) ls))"
  by (induction ls) simp_all

lemma origin_lines:
  assumes "filter (\<lambda>l. l \<noteq> []) ls = [''  origin/main'', ''  origin/dev'', ''  upstream/main'']"
  shows "map (drop (Suc (length ''origin'')))
           (filter (\<lambda>line. startsWith line (''origin'' @ ''/'')) (map trim ls)) =
         [''main'', ''dev'']"
proof -
  have ne: "\<not> startsWith (trim []) (''origin'' @ ''/'')"
    by (simp add: string_defs)
  have "filter (\<lambda>line. startsWith line (''origin'' @ ''/'')) (map trim ls) =
      filter (\<lambda>line. startsWith line (''origin'' @ ''/''))
        (map trim [''  origin/main'', ''  origin/dev'', ''  upstream/main''])"
    using filter_map_nonempty [of "\<lambda>line. startsWith line (''origin'' @ ''/'')" trim ls, OF ne]
    by (simp only: assms)
  also have "\<dots> = [''origin/main'', ''origin/dev'']"
    by (simp add: string_defs)
  finally show ?thesis
    by simp
qed

text \<open>
  C7. For a remote name without pattern characters, when the shallow fetch and the branch
  listing return, \<^verbatim>\<open>getRemoteBranches\<close> returns the lines of the listing's output, each
  trimmed, those that start with \<^verbatim>\<open>remote/\<close> only, with that prefix taken off, in the order
  of the output. On any host, when the non-empty lines of the listing are
  \<^verbatim>\<open>"  origin/main"\<close>, \<^verbatim>\<open>"  origin/dev"\<close> and \<^verbatim>\<open>"  upstream/main"\<close>, the result for
  \<^verbatim>\<open>origin\<close> is \<^verbatim>\<open>["main", "dev"]\<close>.
\<close>

theorem getRemoteBranches_output:
  "(fetch d r remote (AOptions [(''depth'', VStr ''1''), (''no-tags'', VBool True)]) None s =
      (Inr (), s') \<and>
    execInRepo d r ''git branch'' (Some [(''remote'', VBool True)]) None s' = (Inr result, s'') \<and>
    \<not> list_ex isSyntaxCharacter remote \<longrightarrow>
    getRemoteBranches d r remote s =
      (Inr (map (drop (Suc (length remote)))
              (filter (\<lambda>line. startsWith line (remote @ ''/''))
                 (map trim (splitLF (stdout result))))),
       s'')) \<and>
   (fetch d r ''origin'' (AOptions [(''depth'', VStr ''1''), (''no-tags'', VBool True)]) None s =
      (Inr (), s') \<and>
    execInRepo d r ''git branch'' (Some [(''remote'', VBool True)]) None s' = (Inr result, s'') \<and>
    filter (\<lambda>l. l \<noteq> []) (splitLF (stdout result)) =
      [''  origin/main'', ''  origin/dev'', ''  upstream/main''] \<longrightarrow>
    getRemoteBranches d r ''origin'' s = (Inr [''main'', ''dev''], s''))"
proof (intro conjI impI)
  assume "fetch d r remote (AOptions [(''depth'', VStr ''1''), (''no-tags'', VBool True)]) None s =
      (Inr (), s') \<and>
    execInRepo d r ''git branch'' (Some [(''remote'', VBool True)]) None s' = (Inr result, s'') \<and>
    \<not> list_ex isSyntaxCharacter remote"
  then show "getRemoteBranches d r remote s =
      (Inr (map (drop (Suc (length remote)))
              (filter (\<lambda>line. startsWith line (remote @ ''/''))
                 (map trim (splitLF (stdout result))))),
       s'')"
    using getRemoteBranches_result [of d r remote s s' result s''] by blast
next
  assume a: "fetch d r ''origin'' (AOptions [(''depth'', VStr ''1''), (''no-tags'', VBool True)]) None s =
      (Inr (), s') \<and>
    execInRepo d r ''git branch'' (Some [(''remote'', VBool True)]) None s' = (Inr result, s'') \<and>
    filter (\<lambda>l. l \<noteq> []) (splitLF (stdout result)) =
      [''  origin/main'', ''  origin/dev'', ''  upstream/main'']"
  have "\<not> list_ex isSyntaxCharacter ''origin''"
    by (simp add: isSyntaxCharacter_def BACKSLASH_def)
  with a have "getRemoteBranches d r ''origin'' s =
      (Inr (map (drop (Suc (length ''origin'')))
              (filter (\<lambda>line. startsWith line (''origin'' @ ''/''))
                 (map trim (splitLF (stdout result))))),
       s'')"
    using getRemoteBranches_result [of d r "''origin''" s s' result s''] by blast
  with a show "getRemoteBranches d r ''origin'' s = (Inr [''main'', ''dev''], s'')"
    by (simp only: origin_lines)
qed

text \<open>
  The example host prints these three lines: the result is \<^verbatim>\<open>["main", "dev"]\<close>, after
  the shallow fetch and the listing of the remote branches.
\<close>

theorem getRemoteBranches_output_witness:
  "fst (getRemoteBranches exampleDeps exampleRepo ''origin'' exampleState) = Inr [''main'', ''dev''] \<and>
   commands (snd (getRemoteBranches exampleDeps exampleRepo ''origin'' exampleState)) =
     [''git fetch origin --depth 1 --no-tags'', ''git branch --remote'']"
proof -
  let ?fetched = "snd (fetch exampleDeps exampleRepo ''origin''
      (AOptions [(''depth'', VStr ''1''), (''no-tags'', VBool True)]) None exampleState)"
  let ?listing = "\<lparr>code = 0,
      stdout = ''  origin/main'' @ [LF] @ ''  origin/dev'' @ [LF] @ ''  upstream/main'' @ [LF],
      stderr = []\<rparr>"
  let ?listed = "snd (execInRepo exampleDeps exampleRepo ''git branch''
      (Some [(''remote'', VBool True)]) None ?fetched)"
  have f: "fetch exampleDeps exampleRepo ''origin''
      (AOptions [(''depth'', VStr ''1''), (''no-tags'', VBool True)]) None exampleState =
      (Inr (), ?fetched)"
    by (simp add: fetch_def example_defs string_defs options_defs exec_defs)
  have calls: "commands ?fetched = [''git fetch origin --depth 1 --no-tags'']"
    by (simp add: fetch_def example_defs string_defs options_defs exec_defs)
  have alive: "\<not> destroyed ?fetched"
    by (simp add: fetch_def example_defs string_defs options_defs exec_defs)
  have b: "execInRepo exampleDeps exampleRepo ''git branch'' (Some [(''remote'', VBool True)]) None
      ?fetched = (Inr ?listing, ?listed)"
    using execInRepo_fst [of exampleDeps exampleRepo "''git branch''"
        "Some [(''remote'', VBool True)]" None ?fetched] alive
    by (simp add: prod_eq_iff exampleDeps_def exampleExec_def string_defs options_defs)
  have n: "\<not> list_ex isSyntaxCharacter ''origin''"
    by (simp add: isSyntaxCharacter_def BACKSLASH_def)
  have l: "filter (\<lambda>l. l \<noteq> []) (splitLF (stdout ?listing)) =
      [''  origin/main'', ''  origin/dev'', ''  upstream/main'']"
    by (simp add: LF_def)
  note both = getRemoteBranches_output [where d = exampleDeps and r = exampleRepo
      and remote = "''origin''" and s = exampleState and s' = ?fetched and result = ?listing
      and s'' = ?listed]
  have "getRemoteBranches exampleDeps exampleRepo ''origin'' exampleState =
      (Inr (map (drop (Suc (length ''origin'')))
              (filter (\<lambda>line. startsWith line (''origin'' @ ''/''))
                 (map trim (splitLF (stdout ?listing))))),
       ?listed)"
    using both [THEN conjunct1] f b n by blast
  then have branches:
    "fst (getRemoteBranches exampleDeps exampleRepo ''origin'' exampleState) = Inr [''main'', ''dev'']"
    by (simp add: string_defs)
  have "getRemoteBranches exampleDeps exampleRepo ''origin'' exampleState =
      (Inr [''main'', ''dev''], ?listed)"
    using both [THEN conjunct2] f b l by blast
  then have "commands (snd (getRemoteBranches exampleDeps exampleRepo ''origin'' exampleState)) =
      commands ?listed"
    by (simp only: snd_conv)
  also have "\<dots> = commands ?fetched @ [''git branch --remote'']"
    using execInRepo_calls [of exampleDeps exampleRepo "''git branch''"
        "Some [(''remote'', VBool True)]" None ?fetched] alive
    by (simp add: commands_def string_defs options_defs)
  also have "\<dots> = [''git fetch origin --depth 1 --no-tags'', ''git branch --remote'']"
    by (simp only: calls append.simps)
  finally show ?thesis
    using branches by (intro conjI)
qed

section \<open>The commit message\<close>

lemma fixCommitMessageNewlines_restores:
  assumes "CR \<notin> set msg" and "NEWLINE_PLACEHOLDER d \<noteq> []"
    and "hd (NEWLINE_PLACEHOLDER d) \<notin> set msg"
  shows "fixCommitMessageNewlines d (join (NEWLINE_PLACEHOLDER d) (splitCRLF msg)) = msg"
  using assms
  by (simp add: fixCommitMessageNewlines_def splitCRLF_splitLF join_splitLF replaceAll_restores)

lemma trim_line1_line2: "trim (''line1'' @ [LF] @ ''line2'') = ''line1'' @ [LF] @ ''line2''"
  by (simp add: trim_def isWhiteSpace_def)

lemma tempMsgArg_line1_line2:
  "tempMsgArg d (''line1'' @ [LF] @ ''line2'') =
     [DQUOTE] @ ''line1'' @ NEWLINE_PLACEHOLDER d @ ''line2'' @ [DQUOTE]"
  by (simp add: tempMsgArg_def trim_def isWhiteSpace_def LF_def CR_def)

lemma join_line1_line2:
  "join p (splitCRLF (''line1'' @ [LF] @ ''line2'')) = ''line1'' @ p @ ''line2''"
  by (simp add: LF_def CR_def)

lemma message_option:
  "withOptions ''git commit'' (Some [(''message'', VStr (tempMsgArg d msg))]) =
     ''git commit --message '' @ tempMsgArg d msg"
proof -
  have "trim (''--message '' @ tempMsgArg d msg) = ''--message '' @ tempMsgArg d msg"
    using DQUOTE_not_space by (intro trim_id) (simp add: tempMsgArg_def dash_not_space)
  then show ?thesis
    by (simp add: withOptions_def normalizedCmdOpts_def normalizedCmdArgs_def cmdArgsOf_def
        cmdOptsOf_def renderOpt_def flagName_def)
qed

lemma trim_git_commit: "trim ''git commit'' = ''git commit''"
  by (simp add: trim_def isWhiteSpace_def)

lemma trim_filter_branch:
  "trim (''git filter-branch --msg-filter '' @ [DQUOTE] @ ''node '' @ p @ [DQUOTE] @ '' @~1..@'') =
     ''git filter-branch --msg-filter '' @ [DQUOTE] @ ''node '' @ p @ [DQUOTE] @ '' @~1..@''"
  by (rule trim_id) (simp add: isWhiteSpace_def)

lemma commit_calls:
  "execCalls (snd (commit d r msg opts s)) =
     (if destroyed s then execCalls s
      else execCalls s @
        (withOptions ''git commit''
           (Some (AList.update ''message'' (VStr (tempMsgArg d msg)) (orEmpty opts))),
         None, cwd (sh_pushd d (directory r) s)) #
        (case fst (sh_exec d
                     (withOptions ''git commit''
                        (Some (AList.update ''message'' (VStr (tempMsgArg d msg)) (orEmpty opts))))
                     None (cwd (sh_pushd d (directory r) s)) (world s)) of
           Inl e \<Rightarrow> []
         | Inr result \<Rightarrow>
             [(''git filter-branch --msg-filter '' @ [DQUOTE] @ ''node '' @
                 FIX_COMMIT_MESSAGE_NEWLINES_SCRIPT_PATH d @ [DQUOTE] @ '' @~1..@'',
               Some (spread
                       (processEnv
                          (sh_pushd d (directory r)
                             (snd (execInRepo d r ''git commit''
                                     (Some (AList.update ''message'' (VStr (tempMsgArg d msg))
                                              (orEmpty opts)))
                                     None s))))
                       [(''FILTER_BRANCH_SQUELCH_WARNING'', Some ''1'')]),
               cwd (sh_pushd d (directory r)
                      (snd (execInRepo d r ''git commit''
                              (Some (AList.update ''message'' (VStr (tempMsgArg d msg))
                                       (orEmpty opts)))
                              None s))))]))"
proof -
  let ?o = "Some (AList.update ''message'' (VStr (tempMsgArg d msg)) (orEmpty opts))"
  let ?f = "''git filter-branch --msg-filter '' @ [DQUOTE] @ ''node '' @
                 FIX_COMMIT_MESSAGE_NEWLINES_SCRIPT_PATH d @ [DQUOTE] @ '' @~1..@''"
  let ?e = "Some [(''FILTER_BRANCH_SQUELCH_WARNING'', Some ''1'')]"
  obtain x s1 where e: "execInRepo d r ''git commit'' ?o None s = (x, s1)"
    by (cases "execInRepo d r ''git commit'' ?o None s")
  then have s1: "snd (execInRepo d r ''git commit'' ?o None s) = s1"
    by simp
  have c1: "execCalls s1 = (if destroyed s then execCalls s
      else execCalls s @ [(withOptions ''git commit'' ?o, None, cwd (sh_pushd d (directory r) s))])"
    using execInRepo_calls [of d r "''git commit''" ?o None s] e by (simp add: trim_git_commit)
  have f1: "x = (if destroyed s then Inl RepositoryAlreadyDestroyed
      else case fst (sh_exec d (withOptions ''git commit'' ?o) None
                       (cwd (sh_pushd d (directory r) s)) (world s)) of
             Inl e \<Rightarrow> Inl (ExecThrew e) | Inr result \<Rightarrow> Inr result)"
    using execInRepo_fst [of d r "''git commit''" ?o None s] e by (simp add: trim_git_commit)
  have fr: "destroyed s1 = destroyed s"
    using execInRepo_flag [of d r "''git commit''" ?o None s] e by simp
  show ?thesis
  proof (cases x)
    case (Inl err)
    with e have "commit d r msg opts s = (Inl err, s1)"
      by (simp add: commit_def andThen_Inl)
    with c1 f1 Inl show ?thesis by (auto split: sum.splits if_splits)
  next
    case (Inr res)
    with e have "snd (commit d r msg opts s) = snd (execInRepo d r ?f None ?e s1)"
      by (simp add: commit_def andThen_Inr andThen_ret_snd)
    moreover from f1 Inr have alive: "\<not> destroyed s" by (auto split: if_splits)
    ultimately show ?thesis
      using execInRepo_calls [of d r ?f None ?e s1, unfolded trim_filter_branch withOptions_None]
        c1 f1 fr Inr
      by (auto simp: s1 split: sum.splits)
  qed
qed

lemma commit_returns:
  assumes "execInRepo d r ''git commit''
             (Some (AList.update ''message'' (VStr (tempMsgArg d msg)) (orEmpty opts))) None s =
           (Inr committed, s1)"
    and "fst (execInRepo d r
                (''git filter-branch --msg-filter '' @ [DQUOTE] @ ''node '' @
                   FIX_COMMIT_MESSAGE_NEWLINES_SCRIPT_PATH d @ [DQUOTE] @ '' @~1..@'')
                None (Some [(''FILTER_BRANCH_SQUELCH_WARNING'', Some ''1'')]) s1) = Inr rewritten"
  shows "commit d r msg opts s =
           (Inr (),
            snd (execInRepo d r
                   (''git filter-branch --msg-filter '' @ [DQUOTE] @ ''node '' @
                      FIX_COMMIT_MESSAGE_NEWLINES_SCRIPT_PATH d @ [DQUOTE] @ '' @~1..@'')
                   None (Some [(''FILTER_BRANCH_SQUELCH_WARNING'', Some ''1'')]) s1))"
proof -
  let ?f = "''git filter-branch --msg-filter '' @ [DQUOTE] @ ''node '' @
              FIX_COMMIT_MESSAGE_NEWLINES_SCRIPT_PATH d @ [DQUOTE] @ '' @~1..@''"
  let ?e = "Some [(''FILTER_BRANCH_SQUELCH_WARNING'', Some ''1'')]"
  obtain y s2 where y: "execInRepo d r ?f None ?e s1 = (y, s2)"
    by (cases "execInRepo d r ?f None ?e s1")
  with assms(2) have "execInRepo d r ?f None ?e s1 = (Inr rewritten, s2)"
    by simp
  then show ?thesis
    using assms(1) by (simp add: commit_def andThen_Inr ret_def)
qed

lemma tempMsgArg_trim: "tempMsgArg d (trim msg) = tempMsgArg d msg"
  by (simp add: tempMsgArg_def trim_idem)

lemma commit_trim: "commit d r (trim msg) opts s = commit d r msg opts s"
  by (simp add: commit_def tempMsgArg_trim)

lemma tempMsgArg_single_line:
  "LF \<notin> set (trim msg) \<Longrightarrow> tempMsgArg d msg = [DQUOTE] @ trim msg @ [DQUOTE]"
  by (simp add: tempMsgArg_def splitCRLF_no_LF)

text \<open>
  C2. For the message \<^verbatim>\<open>"line1\nline2"\<close> the \<^verbatim>\<open>message\<close> option is the two lines with
  the placeholder between them, in double quotes; \<^verbatim>\<open>commit\<close> runs
  \<^verbatim>\<open>git commit --message\<close> with it and, when that returns, the \<^verbatim>\<open>filter-branch\<close> rewrite
  of the last commit with the warning squelched for that call only.

  The round trip is a statement about a run of \<^verbatim>\<open>commit\<close> on a live session. The tool
  and the shell are external, so what they do is a hypothesis, on the two calls that
  \<^verbatim>\<open>commit\<close> makes and on \<open>message\<close>, the message of the most recent commit in a world:
  the first call returns, and the commit it creates has the value of the \<^verbatim>\<open>message\<close>
  option, the text between the double quotes, as its message (this fails of a real shell
  when the placeholder holds a character that the shell reads specially between double
  quotes); the second call returns, and it has put the output of the script in the place
  of that message. Then \<^verbatim>\<open>commit\<close> returns, the world is the one the second call left,
  and, with a placeholder that is not empty and whose first character does not occur in
  the message, the message of the commit is the original one.
\<close>

theorem commit_message_roundtrip:
  "tempMsgArg d line1_line2 = [DQUOTE] @ ''line1'' @ NEWLINE_PLACEHOLDER d @ ''line2'' @ [DQUOTE] \<and>
   execCalls (snd (commit d r line1_line2 None s)) =
     (if destroyed s then execCalls s
      else execCalls s @
        (''git commit --message '' @ [DQUOTE] @ ''line1'' @ NEWLINE_PLACEHOLDER d @ ''line2'' @ [DQUOTE],
         None, cwd (sh_pushd d (directory r) s)) #
        (case fst (sh_exec d
                     (''git commit --message '' @ [DQUOTE] @ ''line1'' @ NEWLINE_PLACEHOLDER d @
                        ''line2'' @ [DQUOTE])
                     None (cwd (sh_pushd d (directory r) s)) (world s)) of
           Inl e \<Rightarrow> []
         | Inr result \<Rightarrow>
             [(''git filter-branch --msg-filter '' @ [DQUOTE] @ ''node '' @
                 FIX_COMMIT_MESSAGE_NEWLINES_SCRIPT_PATH d @ [DQUOTE] @ '' @~1..@'',
               Some (spread
                       (processEnv
                          (sh_pushd d (directory r)
                             (snd (execInRepo d r ''git commit''
                                     (Some [(''message'', VStr (tempMsgArg d line1_line2))])
                                     None s))))
                       [(''FILTER_BRANCH_SQUELCH_WARNING'', Some ''1'')]),
               cwd (sh_pushd d (directory r)
                      (snd (execInRepo d r ''git commit''
                              (Some [(''message'', VStr (tempMsgArg d line1_line2))])
                              None s))))])) \<and>
   (\<not> destroyed s \<and>
    sh_exec d
      (''git commit --message '' @ [DQUOTE] @ ''line1'' @ NEWLINE_PLACEHOLDER d @ ''line2'' @ [DQUOTE])
      None (cwd (sh_pushd d (directory r) s)) (world s) = (Inr committed, w) \<and>
    message w = Some (''line1'' @ NEWLINE_PLACEHOLDER d @ ''line2'') \<and>
    s' = snd (execInRepo d r ''git commit''
                (Some [(''message'', VStr (tempMsgArg d line1_line2))]) None s) \<and>
    sh_exec d
      (''git filter-branch --msg-filter '' @ [DQUOTE] @ ''node '' @
         FIX_COMMIT_MESSAGE_NEWLINES_SCRIPT_PATH d @ [DQUOTE] @ '' @~1..@'')
      (Some (spread (processEnv (sh_pushd d (directory r) s'))
               [(''FILTER_BRANCH_SQUELCH_WARNING'', Some ''1'')]))
      (cwd (sh_pushd d (directory r) s')) w = (Inr rewritten, w') \<and>
    message w' = map_option (fixCommitMessageNewlines d) (message w) \<and>
    NEWLINE_PLACEHOLDER d \<noteq> [] \<and> hd (NEWLINE_PLACEHOLDER d) \<notin> set line1_line2 \<longrightarrow>
      fst (commit d r line1_line2 None s) = Inr () \<and>
      world (snd (commit d r line1_line2 None s)) = w' \<and>
      message (world (snd (commit d r line1_line2 None s))) = Some line1_line2)"
proof (intro conjI impI)
  let ?o = "Some [(''message'', VStr (tempMsgArg d line1_line2))]"
  let ?c = "''git commit --message '' @ [DQUOTE] @ ''line1'' @ NEWLINE_PLACEHOLDER d @ ''line2'' @
              [DQUOTE]"
  let ?f = "''git filter-branch --msg-filter '' @ [DQUOTE] @ ''node '' @
              FIX_COMMIT_MESSAGE_NEWLINES_SCRIPT_PATH d @ [DQUOTE] @ '' @~1..@''"
  let ?e = "Some [(''FILTER_BRANCH_SQUELCH_WARNING'', Some ''1'')]"
  show t: "tempMsgArg d line1_line2 = [DQUOTE] @ ''line1'' @ NEWLINE_PLACEHOLDER d @ ''line2'' @ [DQUOTE]"
    unfolding line1_line2_def by (rule tempMsgArg_line1_line2)
  have o: "Some (AList.update ''message'' (VStr (tempMsgArg d line1_line2)) (orEmpty None)) = ?o"
    by (simp add: orEmpty_def)
  have m: "withOptions ''git commit'' ?o = ?c"
    using message_option [of d line1_line2] by (simp add: t)
  show "execCalls (snd (commit d r line1_line2 None s)) =
     (if destroyed s then execCalls s
      else execCalls s @
        (?c, None, cwd (sh_pushd d (directory r) s)) #
        (case fst (sh_exec d ?c None (cwd (sh_pushd d (directory r) s)) (world s)) of
           Inl e \<Rightarrow> []
         | Inr result \<Rightarrow>
             [(?f,
               Some (spread
                       (processEnv
                          (sh_pushd d (directory r) (snd (execInRepo d r ''git commit'' ?o None s))))
                       [(''FILTER_BRANCH_SQUELCH_WARNING'', Some ''1'')]),
               cwd (sh_pushd d (directory r) (snd (execInRepo d r ''git commit'' ?o None s))))]))"
    unfolding commit_calls [of d r line1_line2 None s] o m ..
  assume a: "\<not> destroyed s \<and>
    sh_exec d ?c None (cwd (sh_pushd d (directory r) s)) (world s) = (Inr committed, w) \<and>
    message w = Some (''line1'' @ NEWLINE_PLACEHOLDER d @ ''line2'') \<and>
    s' = snd (execInRepo d r ''git commit'' ?o None s) \<and>
    sh_exec d ?f
      (Some (spread (processEnv (sh_pushd d (directory r) s'))
               [(''FILTER_BRANCH_SQUELCH_WARNING'', Some ''1'')]))
      (cwd (sh_pushd d (directory r) s')) w = (Inr rewritten, w') \<and>
    message w' = map_option (fixCommitMessageNewlines d) (message w) \<and>
    NEWLINE_PLACEHOLDER d \<noteq> [] \<and> hd (NEWLINE_PLACEHOLDER d) \<notin> set line1_line2"
  then have alive: "\<not> destroyed s"
    and first: "sh_exec d ?c None (cwd (sh_pushd d (directory r) s)) (world s) = (Inr committed, w)"
    and stored: "message w = Some (''line1'' @ NEWLINE_PLACEHOLDER d @ ''line2'')"
    and s': "s' = snd (execInRepo d r ''git commit'' ?o None s)"
    and second: "sh_exec d ?f
      (Some (spread (processEnv (sh_pushd d (directory r) s'))
               [(''FILTER_BRANCH_SQUELCH_WARNING'', Some ''1'')]))
      (cwd (sh_pushd d (directory r) s')) w = (Inr rewritten, w')"
    and script: "message w' = map_option (fixCommitMessageNewlines d) (message w)"
    and ph: "NEWLINE_PLACEHOLDER d \<noteq> []" "hd (NEWLINE_PLACEHOLDER d) \<notin> set line1_line2"
    by blast+
  have "fst (execInRepo d r ''git commit'' ?o None s) = Inr committed"
    using execInRepo_fst [of d r "''git commit''" ?o None s] alive first
    by (simp add: trim_git_commit m)
  then have e1: "execInRepo d r ''git commit'' ?o None s = (Inr committed, s')"
    by (simp add: s' prod_eq_iff)
  have ws': "world s' = w"
    using execInRepo_world [of d r "''git commit''" ?o None s] alive first
    by (simp add: trim_git_commit m s')
  have alive': "\<not> destroyed s'"
    using execInRepo_flag [of d r "''git commit''" ?o None s] alive by (simp add: s')
  have e2: "fst (execInRepo d r ?f None ?e s') = Inr rewritten"
    using execInRepo_fst [of d r ?f None ?e s', unfolded trim_filter_branch withOptions_None]
      alive' second
    by (simp add: ws')
  have w2: "world (snd (execInRepo d r ?f None ?e s')) = w'"
    using execInRepo_world [of d r ?f None ?e s', unfolded trim_filter_branch withOptions_None]
      alive' second
    by (simp add: ws')
  have c: "commit d r line1_line2 None s = (Inr (), snd (execInRepo d r ?f None ?e s'))"
    using commit_returns [of d r line1_line2 None s committed s' rewritten] e1 e2
    by (simp only: o)
  show "fst (commit d r line1_line2 None s) = Inr ()"
    by (simp only: c fst_conv)
  show w: "world (snd (commit d r line1_line2 None s)) = w'"
    by (simp only: c snd_conv w2)
  have cr: "CR \<notin> set line1_line2"
    by (simp add: line1_line2_def CR_def LF_def)
  have "fixCommitMessageNewlines d (join (NEWLINE_PLACEHOLDER d) (splitCRLF line1_line2)) =
      line1_line2"
    using cr ph by (rule fixCommitMessageNewlines_restores)
  then have "fixCommitMessageNewlines d (''line1'' @ NEWLINE_PLACEHOLDER d @ ''line2'') = line1_line2"
    by (simp only: line1_line2_def join_line1_line2)
  then show "message (world (snd (commit d r line1_line2 None s))) = Some line1_line2"
    by (simp add: w script stored)
qed

text \<open>
  On the example host, whose tool stores the text between the quotes and whose rewrite
  puts a line feed for the placeholder \<^verbatim>\<open><NL>\<close>: \<^verbatim>\<open>commit\<close> returns, both commands have
  run, and the message of the commit is \<^verbatim>\<open>"line1\nline2"\<close>.
\<close>

theorem commit_message_roundtrip_witness:
  "fst (commit exampleDeps exampleRepo line1_line2 None exampleState) = Inr () \<and>
   world (snd (commit exampleDeps exampleRepo line1_line2 None exampleState)) =
     [''git commit --message '' @ [DQUOTE] @ ''line1<NL>line2'' @ [DQUOTE],
      ''git filter-branch --msg-filter '' @ [DQUOTE] @ ''node /app/fix-commit-message-newlines.js'' @
        [DQUOTE] @ '' @~1..@''] \<and>
   exampleMessage (world (snd (commit exampleDeps exampleRepo line1_line2 None exampleState))) =
     Some line1_line2"
proof -
  let ?c = "''git commit --message '' @ [DQUOTE] @ ''line1'' @ NEWLINE_PLACEHOLDER exampleDeps @
              ''line2'' @ [DQUOTE]"
  let ?f = "''git filter-branch --msg-filter '' @ [DQUOTE] @ ''node '' @
              FIX_COMMIT_MESSAGE_NEWLINES_SCRIPT_PATH exampleDeps @ [DQUOTE] @ '' @~1..@''"
  let ?s' = "snd (execInRepo exampleDeps exampleRepo ''git commit''
                (Some [(''message'', VStr (tempMsgArg exampleDeps line1_line2))]) None exampleState)"
  let ?ok = "\<lparr>code = 0, stdout = [], stderr = []\<rparr>"
  have alive: "\<not> destroyed exampleState"
    by (simp add: exampleState_def)
  have first: "sh_exec exampleDeps ?c None
      (cwd (sh_pushd exampleDeps (directory exampleRepo) exampleState)) (world exampleState) =
      (Inr ?ok, [?c])"
    by (simp add: example_defs DQUOTE_def)
  have stored: "exampleMessage [?c] = Some (''line1'' @ NEWLINE_PLACEHOLDER exampleDeps @ ''line2'')"
    by (simp add: exampleMessage_def exampleDeps_def startsWith_def DQUOTE_def)
  have second: "sh_exec exampleDeps ?f
      (Some (spread (processEnv (sh_pushd exampleDeps (directory exampleRepo) ?s'))
               [(''FILTER_BRANCH_SQUELCH_WARNING'', Some ''1'')]))
      (cwd (sh_pushd exampleDeps (directory exampleRepo) ?s')) [?c] = (Inr ?ok, [?c, ?f])"
    by (simp add: exampleDeps_def exampleExec_def DQUOTE_def)
  have script: "exampleMessage [?c, ?f] =
      map_option (fixCommitMessageNewlines exampleDeps) (exampleMessage [?c])"
    by (simp add: exampleMessage_def fixCommitMessageNewlines_def exampleDeps_def startsWith_def
        DQUOTE_def LF_def)
  have ph: "NEWLINE_PLACEHOLDER exampleDeps \<noteq> []"
    "hd (NEWLINE_PLACEHOLDER exampleDeps) \<notin> set line1_line2"
    by (simp_all add: exampleDeps_def line1_line2_def LF_def)
  have run: "fst (commit exampleDeps exampleRepo line1_line2 None exampleState) = Inr () \<and>
      world (snd (commit exampleDeps exampleRepo line1_line2 None exampleState)) = [?c, ?f] \<and>
      exampleMessage (world (snd (commit exampleDeps exampleRepo line1_line2 None exampleState))) =
        Some line1_line2"
    using commit_message_roundtrip [where d = exampleDeps and r = exampleRepo and s = exampleState
        and committed = ?ok and w = "[?c]" and message = exampleMessage and s' = ?s'
        and rewritten = ?ok and w' = "[?c, ?f]"]
      alive first stored second script ph
    by blast
  have commands: "[?c, ?f] =
      [''git commit --message '' @ [DQUOTE] @ ''line1<NL>line2'' @ [DQUOTE],
       ''git filter-branch --msg-filter '' @ [DQUOTE] @ ''node /app/fix-commit-message-newlines.js'' @
         [DQUOTE] @ '' @~1..@'']"
    by (simp add: exampleDeps_def)
  from run [THEN conjunct1] run [THEN conjunct2, THEN conjunct1, unfolded commands]
    run [THEN conjunct2, THEN conjunct2]
  show ?thesis
    by (intro conjI)
qed

text \<open>
  C10. The \<^verbatim>\<open>message\<close> option is built from the trimmed message: \<^verbatim>\<open>commit\<close> does the
  same for a message and for the message trimmed, so white space and newlines at either
  end are lost. The lines are joined with the placeholder and put between double quotes as
  they are: a one-line message appears verbatim, with the double quotes it contains.
\<close>

theorem commit_trims_and_quotes:
  "tempMsgArg d msg = [DQUOTE] @ join (NEWLINE_PLACEHOLDER d) (splitCRLF (trim msg)) @ [DQUOTE] \<and>
   tempMsgArg d (trim msg) = tempMsgArg d msg \<and>
   commit d r (trim msg) opts s = commit d r msg opts s \<and>
   (LF \<notin> set (trim msg) \<longrightarrow> tempMsgArg d msg = [DQUOTE] @ trim msg @ [DQUOTE]) \<and>
   execCalls (snd (commit d r msg opts s)) =
     (if destroyed s then execCalls s
      else execCalls s @
        (withOptions ''git commit''
           (Some (AList.update ''message'' (VStr (tempMsgArg d (trim msg))) (orEmpty opts))),
         None, cwd (sh_pushd d (directory r) s)) #
        (case fst (sh_exec d
                     (withOptions ''git commit''
                        (Some (AList.update ''message'' (VStr (tempMsgArg d (trim msg))) (orEmpty opts))))
                     None (cwd (sh_pushd d (directory r) s)) (world s)) of
           Inl e \<Rightarrow> []
         | Inr result \<Rightarrow>
             [(''git filter-branch --msg-filter '' @ [DQUOTE] @ ''node '' @
                 FIX_COMMIT_MESSAGE_NEWLINES_SCRIPT_PATH d @ [DQUOTE] @ '' @~1..@'',
               Some (spread
                       (processEnv
                          (sh_pushd d (directory r)
                             (snd (execInRepo d r ''git commit''
                                     (Some (AList.update ''message'' (VStr (tempMsgArg d (trim msg)))
                                              (orEmpty opts)))
                                     None s))))
                       [(''FILTER_BRANCH_SQUELCH_WARNING'', Some ''1'')]),
               cwd (sh_pushd d (directory r)
                      (snd (execInRepo d r ''git commit''
                              (Some (AList.update ''message'' (VStr (tempMsgArg d (trim msg)))
                                       (orEmpty opts)))
                              None s))))]))"
proof (intro conjI impI)
  show "tempMsgArg d msg = [DQUOTE] @ join (NEWLINE_PLACEHOLDER d) (splitCRLF (trim msg)) @ [DQUOTE]"
    by (simp add: tempMsgArg_def)
  show "tempMsgArg d (trim msg) = tempMsgArg d msg"
    by (rule tempMsgArg_trim)
  show "commit d r (trim msg) opts s = commit d r msg opts s"
    by (rule commit_trim)
  show "tempMsgArg d msg = [DQUOTE] @ trim msg @ [DQUOTE]" if "LF \<notin> set (trim msg)"
    using that by (rule tempMsgArg_single_line)
  show "execCalls (snd (commit d r msg opts s)) =
     (if destroyed s then execCalls s
      else execCalls s @
        (withOptions ''git commit''
           (Some (AList.update ''message'' (VStr (tempMsgArg d (trim msg))) (orEmpty opts))),
         None, cwd (sh_pushd d (directory r) s)) #
        (case fst (sh_exec d
                     (withOptions ''git commit''
                        (Some (AList.update ''message'' (VStr (tempMsgArg d (trim msg))) (orEmpty opts))))
                     None (cwd (sh_pushd d (directory r) s)) (world s)) of
           Inl e \<Rightarrow> []
         | Inr result \<Rightarrow>
             [(''git filter-branch --msg-filter '' @ [DQUOTE] @ ''node '' @
                 FIX_COMMIT_MESSAGE_NEWLINES_SCRIPT_PATH d @ [DQUOTE] @ '' @~1..@'',
               Some (spread
                       (processEnv
                          (sh_pushd d (directory r)
                             (snd (execInRepo d r ''git commit''
                                     (Some (AList.update ''message'' (VStr (tempMsgArg d (trim msg)))
                                              (orEmpty opts)))
                                     None s))))
                       [(''FILTER_BRANCH_SQUELCH_WARNING'', Some ''1'')]),
               cwd (sh_pushd d (directory r)
                      (snd (execInRepo d r ''git commit''
                              (Some (AList.update ''message'' (VStr (tempMsgArg d (trim msg)))
                                       (orEmpty opts)))
                              None s))))]))"
    unfolding tempMsgArg_trim by (rule commit_calls)
qed

text \<open>
  The message \<^verbatim>\<open>say "hi"\<close> with a newline and blanks around it becomes
  \<^verbatim>\<open>"say "hi""\<close>.
\<close>

theorem commit_trims_and_quotes_witness:
  "tempMsgArg exampleDeps ([LF] @ ''  say '' @ [DQUOTE] @ ''hi'' @ [DQUOTE] @ '' '' @ [LF]) =
     [DQUOTE] @ ''say '' @ [DQUOTE] @ ''hi'' @ [DQUOTE] @ [DQUOTE]"
proof -
  let ?msg = "[LF] @ ''  say '' @ [DQUOTE] @ ''hi'' @ [DQUOTE] @ '' '' @ [LF]"
  have t: "trim ?msg = ''say '' @ [DQUOTE] @ ''hi'' @ [DQUOTE]"
    by (simp add: string_defs)
  then have "LF \<notin> set (trim ?msg)" by (simp add: LF_def DQUOTE_def)
  then have "tempMsgArg exampleDeps ?msg = [DQUOTE] @ trim ?msg @ [DQUOTE]"
    using commit_trims_and_quotes [where d = exampleDeps and msg = ?msg] by blast
  then show ?thesis unfolding t by simp
qed

end
